theory Spec2Isabelle
  imports Complex_Main "HOL-Library.Char_ord" "HOL-Library.List_Lexorder"
begin

section \<open>The observability server: log reconstruction and memory-file lookup\<close>

text \<open>
  A shallow embedding of the standalone observability server (\<^verbatim>\<open>server.mjs\<close>):
  \<^verbatim>\<open>truncate\<close>, \<^verbatim>\<open>parseSessionSummary\<close>, \<^verbatim>\<open>parseTranscript\<close>,
  \<^verbatim>\<open>extractCommands\<close> and \<^verbatim>\<open>getMemoryFile\<close>.

  Conventions of the embedding.
  \<^item> A JavaScript string is a sequence of UTF-16 code units; \<^typ>\<open>string\<close> stands for it,
    one \<^typ>\<open>char\<close> per code unit. \<open>length\<close> is \<^verbatim>\<open>.length\<close>, and the order of
    \<^theory_text>\<open>List_Lexorder\<close> over \<^theory_text>\<open>Char_ord\<close> is the order of \<^verbatim>\<open><\<close> and
    \<^verbatim>\<open>></\<close> on two strings (lexicographic by code unit). The two literals of the source
    outside Latin-1 (the ellipsis U+2026 and the arrow U+2192, one code unit each) are
    single designated characters.
  \<^item> A decoded event is a record with one optional field for each property the source
    reads; \<open>None\<close> is an absent property (\<^verbatim>\<open>undefined\<close>). The fields have the types of
    the log format: strings for tags, identifiers and time stamps, integers for token
    counts (JavaScript numbers are doubles, exact on integers below \<open>2^53\<close>).
  \<^item> The platform's file system and \<^verbatim>\<open>JSON.parse\<close> are inputs: a function takes the
    decoded events, the directory listing or the file reader as a parameter, and an
    exception caught by the source is \<open>None\<close>.
\<close>

subsection \<open>Strings\<close>

definition ellipsis :: char where
  "ellipsis = CHR 0x85"

definition arrow :: char where
  "arrow = CHR 0x1A"

text \<open>\<^verbatim>\<open>s.length <= max ? s : s.slice(0, max) + "\<dots>"\<close>; every call passes a literal
  non-negative integer as \<^verbatim>\<open>max\<close>.\<close>

definition truncate_str :: "string \<Rightarrow> nat \<Rightarrow> string" where
  "truncate_str s mx = (if length s \<le> mx then s else take mx s @ [ellipsis])"

definition startsWith :: "string \<Rightarrow> string \<Rightarrow> bool" where
  "startsWith s p = (take (length p) s = p)"

definition endsWith :: "string \<Rightarrow> string \<Rightarrow> bool" where
  "endsWith s p = (length p \<le> length s \<and> drop (length s - length p) s = p)"

fun includes_str :: "string \<Rightarrow> string \<Rightarrow> bool" where
  "includes_str [] p = (p = [])"
| "includes_str (c # cs) p = (startsWith (c # cs) p \<or> includes_str cs p)"

text \<open>\<^verbatim>\<open>s.replace(pat, rep)\<close> with a string pattern: the first occurrence only.\<close>

fun replace_first :: "string \<Rightarrow> string \<Rightarrow> string \<Rightarrow> string" where
  "replace_first [] pat rep = (if pat = [] then rep else [])"
| "replace_first (c # cs) pat rep =
     (if startsWith (c # cs) pat then rep @ drop (length pat) (c # cs)
      else c # replace_first cs pat rep)"

text \<open>\<^verbatim>\<open>s.split(sep)\<close> for a one-character separator: never empty, \<^verbatim>\<open>"".split("/")\<close>
  is \<^verbatim>\<open>[""]\<close>.\<close>

fun split_sep :: "char \<Rightarrow> string \<Rightarrow> string list" where
  "split_sep sep [] = [[]]"
| "split_sep sep (c # cs) =
     (if c = sep then [] # split_sep sep cs
      else (case split_sep sep cs of [] \<Rightarrow> [[c]] | w # ws \<Rightarrow> (c # w) # ws))"

fun join_sep :: "char \<Rightarrow> string list \<Rightarrow> string" where
  "join_sep sep [] = []"
| "join_sep sep [w] = w"
| "join_sep sep (w # ws) = w @ sep # join_sep sep ws"

text \<open>White space of \<^verbatim>\<open>String.prototype.trim\<close> among the code units below 256.\<close>

definition is_space :: "char \<Rightarrow> bool" where
  "is_space c = (c \<in> set [CHR 0x09, CHR 0x0A, CHR 0x0B, CHR 0x0C, CHR 0x0D, CHR 0x20, CHR 0xA0])"

definition trim :: "string \<Rightarrow> string" where
  "trim s = rev (dropWhile is_space (rev (dropWhile is_space s)))"

text \<open>\<^verbatim>\<open>a ?? b\<close> on an optional value.\<close>

definition nullish :: "'a option \<Rightarrow> 'a \<Rightarrow> 'a" where
  "nullish a b = (case a of Some v \<Rightarrow> v | None \<Rightarrow> b)"

definition nullish_opt :: "'a option \<Rightarrow> 'a option \<Rightarrow> 'a option" where
  "nullish_opt a b = (case a of Some v \<Rightarrow> Some v | None \<Rightarrow> b)"

text \<open>Truthiness of an optional string: present and not empty.\<close>

definition truthy :: "string option \<Rightarrow> bool" where
  "truthy a = (case a of Some v \<Rightarrow> v \<noteq> [] | None \<Rightarrow> False)"

text \<open>\<^verbatim>\<open>a > b\<close> on a string \<open>a\<close> and an optional string \<open>b\<close>: against
  \<^verbatim>\<open>undefined\<close> the comparison is numeric, \<^verbatim>\<open>undefined\<close> is \<^verbatim>\<open>NaN\<close>, and the result
  is false.\<close>

definition js_gt :: "string \<Rightarrow> string option \<Rightarrow> bool" where
  "js_gt a b = (case b of Some v \<Rightarrow> a > v | None \<Rightarrow> False)"

subsection \<open>Paths (POSIX)\<close>

text \<open>
  \<^verbatim>\<open>path.normalize\<close> and \<^verbatim>\<open>path.isAbsolute\<close> of Node.js on a POSIX host (the
  separator \<^verbatim>\<open>path.sep\<close> is \<^verbatim>\<open>"/"\<close>). Node's \<^verbatim>\<open>normalizeString\<close> walks the
  characters; here it walks the segments between separators, to the same result: empty
  segments and \<^verbatim>\<open>"."\<close> are dropped, \<^verbatim>\<open>".."\<close> removes the segment before it unless
  there is none or it is \<^verbatim>\<open>".."\<close> itself, and then stays only if the path is relative.
  \<open>res\<close> is the result so far.
\<close>

fun normalizeSegs :: "bool \<Rightarrow> string list \<Rightarrow> string list \<Rightarrow> string list" where
  "normalizeSegs allowAboveRoot res [] = res"
| "normalizeSegs allowAboveRoot res (s # ss) =
     (if s = [] \<or> s = ''.'' then normalizeSegs allowAboveRoot res ss
      else if s = ''..'' then
        (if res \<noteq> [] \<and> last res \<noteq> ''..'' then normalizeSegs allowAboveRoot (butlast res) ss
         else if allowAboveRoot then normalizeSegs allowAboveRoot (res @ [''..'']) ss
         else normalizeSegs allowAboveRoot res ss)
      else normalizeSegs allowAboveRoot (res @ [s]) ss)"

definition normalizeString :: "string \<Rightarrow> bool \<Rightarrow> string" where
  "normalizeString p allowAboveRoot =
     join_sep CHR ''/'' (normalizeSegs allowAboveRoot [] (split_sep CHR ''/'' p))"

definition isAbsolute :: "string \<Rightarrow> bool" where
  "isAbsolute p = (case p of [] \<Rightarrow> False | c # _ \<Rightarrow> c = CHR ''/'')"

definition path_normalize :: "string \<Rightarrow> string" where
  "path_normalize p =
     (if p = [] then ''.''
      else
        let isAbs = isAbsolute p;
            trailingSeparator = (last p = CHR ''/'');
            q = normalizeString p (\<not> isAbs)
        in if q = [] then (if isAbs then ''/'' else if trailingSeparator then ''./'' else ''.'')
           else
             let q' = (if trailingSeparator then q @ ''/'' else q)
             in if isAbs then CHR ''/'' # q' else q')"

subsection \<open>Memory files\<close>

definition MEMORY_DIRS :: "string list" where
  "MEMORY_DIRS = [''bugs'', ''decisions'', ''diary'', ''gotchas'', ''guide'', ''patterns'']"

text \<open>
  \<open>readFile p\<close> is \<^verbatim>\<open>fs.readFileSync(path.join(WORKSPACE_DIR, p), "utf-8")\<close>, \<open>None\<close>
  when it throws. \<^verbatim>\<open>parts[0]\<close> of an empty array would be \<^verbatim>\<open>undefined\<close>, which the
  list of names does not include.
\<close>

definition getMemoryFile :: "(string \<Rightarrow> string option) \<Rightarrow> string \<Rightarrow> string option" where
  "getMemoryFile readFile fp =
     (let norm = path_normalize fp
      in if startsWith norm ''..'' \<or> isAbsolute norm then None
         else
           (case split_sep CHR ''/'' norm of
              [] \<Rightarrow> None
            | p0 # _ \<Rightarrow> if p0 \<notin> set MEMORY_DIRS then None else readFile norm))"

subsection \<open>Decoded events\<close>

text \<open>
  The result of \<^verbatim>\<open>parseJsonl\<close> is a list of events. The source reads properties by
  name on untyped objects, so every record below has all the properties read at that
  level, each optional.
\<close>

record msg_usage =
  u_input :: "int option"
  u_output :: "int option"
  u_cacheRead :: "int option"
  u_totalTokens :: "int option"
  u_cost_total :: "rat option"

text \<open>A sub-block of a tool result's content array: \<^verbatim>\<open>rc.type\<close> and \<^verbatim>\<open>rc.text\<close>.\<close>

record sub_block =
  rc_type :: "string option"
  rc_text :: "string option"

text \<open>\<^verbatim>\<open>b.content\<close> of a block: a string, an array, or neither.\<close>

datatype result_content = RString string | RArray "sub_block list" | RNone

text \<open>
  \<^verbatim>\<open>b.args\<close>: the three properties the source reads, and the text
  \<^verbatim>\<open>JSON.stringify\<close> gives for the whole object.
\<close>

record tool_args =
  a_task :: "string option"
  a_message :: "string option"
  a_model :: "string option"
  a_json :: string

definition empty_args :: tool_args where
  "empty_args = \<lparr>a_task = None, a_message = None, a_model = None, a_json = ''{}''\<rparr>"

record block =
  b_type :: "string option"
  b_text :: "string option"
  b_toolCallId :: "string option"
  b_toolName :: "string option"
  b_args :: "tool_args option"
  b_content :: result_content

text \<open>\<^verbatim>\<open>msg.content\<close>: a string, an array of blocks, or neither.\<close>

datatype msg_content = CString string | CArray "block list" | CNone

record message =
  m_role :: "string option"
  m_channel :: "string option"
  m_usage :: "msg_usage option"
  m_content :: msg_content

record snapshot_data =
  d_modelId :: "string option"
  d_provider :: "string option"

record event =
  e_type :: "string option"
  e_id :: "string option"
  e_timestamp :: "string option"
  e_modelId :: "string option"
  e_provider :: "string option"
  e_customType :: "string option"
  e_data :: "snapshot_data option"
  e_message :: "message option"

subsection \<open>Session summary\<close>

record token_usage =
  tok_input :: int
  tok_output :: int
  tok_cacheRead :: int
  tok_total :: int

record sub_agent =
  sa_task :: string
  sa_model :: "string option"
  sa_timestamp :: "string option"

record summary =
  s_id :: string
  s_file :: string
  s_startTime :: "string option"
  s_lastActivity :: "string option"
  s_model :: "string option"
  s_provider :: "string option"
  s_channel :: "string option"
  s_messageCount :: nat
  s_tokenUsage :: token_usage
  s_cost :: rat
  s_subAgents :: "sub_agent list"

text \<open>The variables of the loop of \<^verbatim>\<open>parseSessionSummary\<close>.\<close>

record sum_state =
  st_model :: "string option"
  st_provider :: "string option"
  st_channel :: "string option"
  st_lastTs :: "string option"
  st_msgCount :: nat
  st_tok :: token_usage
  st_cost :: rat
  st_subAgents :: "sub_agent list"

text \<open>The four additions to \<^verbatim>\<open>tok\<close> and the one to \<^verbatim>\<open>cost\<close>, for a message with a
  \<^verbatim>\<open>usage\<close> object.\<close>

definition add_usage :: "msg_usage \<Rightarrow> sum_state \<Rightarrow> sum_state" where
  "add_usage u st =
     st\<lparr>st_tok :=
          \<lparr>tok_input = tok_input (st_tok st) + nullish (u_input u) 0,
           tok_output = tok_output (st_tok st) + nullish (u_output u) 0,
           tok_cacheRead = tok_cacheRead (st_tok st) + nullish (u_cacheRead u) 0,
           tok_total = tok_total (st_tok st) + nullish (u_totalTokens u) 0\<rparr>,
        st_cost :=
          (case u_cost_total u of
             Some c \<Rightarrow> if c \<noteq> 0 then st_cost st + c else st_cost st
           | None \<Rightarrow> st_cost st)\<rparr>"

text \<open>The inner loop over the blocks of a message: one sub-agent for each
  \<^verbatim>\<open>toolCall\<close> block named \<^verbatim>\<open>sessions_spawn\<close> or \<^verbatim>\<open>subagents\<close>.\<close>

definition spawn_step :: "string option \<Rightarrow> sub_agent list \<Rightarrow> block \<Rightarrow> sub_agent list" where
  "spawn_step ts subAgents b =
     (if b_type b = Some ''toolCall'' \<and>
         (b_toolName b = Some ''sessions_spawn'' \<or> b_toolName b = Some ''subagents'')
      then
        let a = nullish (b_args b) empty_args
        in subAgents @
           [\<lparr>sa_task = truncate_str (nullish (a_task a) (nullish (a_message a) (a_json a))) 200,
             sa_model = a_model a,
             sa_timestamp = ts\<rparr>]
      else subAgents)"

text \<open>The four statements of the loop body over the events, in the order of the
  source: the time stamp, a \<^verbatim>\<open>model_change\<close> record, a \<^verbatim>\<open>model-snapshot\<close> record, a
  \<^verbatim>\<open>message\<close> record.\<close>

definition note_timestamp :: "event \<Rightarrow> sum_state \<Rightarrow> sum_state" where
  "note_timestamp e st =
     (case e_timestamp e of
        Some t \<Rightarrow> if t \<noteq> [] \<and> js_gt t (st_lastTs st) then st\<lparr>st_lastTs := Some t\<rparr> else st
      | None \<Rightarrow> st)"

definition note_model_change :: "event \<Rightarrow> sum_state \<Rightarrow> sum_state" where
  "note_model_change e st =
     (if e_type e = Some ''model_change''
      then st\<lparr>st_model := nullish_opt (e_modelId e) (st_model st),
              st_provider := nullish_opt (e_provider e) (st_provider st)\<rparr>
      else st)"

definition note_model_snapshot :: "event \<Rightarrow> sum_state \<Rightarrow> sum_state" where
  "note_model_snapshot e st =
     (if e_type e = Some ''custom'' \<and> e_customType e = Some ''model-snapshot''
      then
        (case e_data e of
           Some d \<Rightarrow>
             st\<lparr>st_model := nullish_opt (d_modelId d) (st_model st),
                st_provider := nullish_opt (d_provider d) (st_provider st)\<rparr>
         | None \<Rightarrow> st)
      else st)"

text \<open>The body for a message that has a \<^verbatim>\<open>message\<close> object: channel, usage,
  sub-agents.\<close>

definition note_channel :: "message \<Rightarrow> sum_state \<Rightarrow> sum_state" where
  "note_channel msg st =
     (if \<not> truthy (st_channel st) \<and> truthy (m_channel msg)
      then st\<lparr>st_channel := m_channel msg\<rparr> else st)"

definition note_usage :: "message \<Rightarrow> sum_state \<Rightarrow> sum_state" where
  "note_usage msg st = (case m_usage msg of Some u \<Rightarrow> add_usage u st | None \<Rightarrow> st)"

definition note_spawns :: "event \<Rightarrow> message \<Rightarrow> sum_state \<Rightarrow> sum_state" where
  "note_spawns e msg st =
     (case m_content msg of
        CArray bs \<Rightarrow>
          st\<lparr>st_subAgents :=
               foldl (spawn_step (nullish_opt (e_timestamp e) (st_lastTs st))) (st_subAgents st) bs\<rparr>
      | _ \<Rightarrow> st)"

text \<open>\<^verbatim>\<open>continue\<close> on a message event without a \<^verbatim>\<open>message\<close> leaves the iteration
  after the count.\<close>

definition note_message :: "event \<Rightarrow> sum_state \<Rightarrow> sum_state" where
  "note_message e st =
     (if e_type e = Some ''message''
      then
        let st' = st\<lparr>st_msgCount := st_msgCount st + 1\<rparr>
        in (case e_message e of
              None \<Rightarrow> st'
            | Some msg \<Rightarrow> note_spawns e msg (note_usage msg (note_channel msg st')))
      else st)"

definition summary_step :: "sum_state \<Rightarrow> event \<Rightarrow> sum_state" where
  "summary_step st e =
     note_message e (note_model_snapshot e (note_model_change e (note_timestamp e st)))"

text \<open>
  \<^verbatim>\<open>parseSessionSummary(filePath)\<close>. \<open>entries\<close> is \<^verbatim>\<open>parseJsonl(filePath)\<close>,
  \<open>fileName\<close> is \<^verbatim>\<open>path.basename(filePath)\<close> and \<open>stem\<close> is
  \<^verbatim>\<open>path.basename(filePath, ".jsonl")\<close>. \<open>init_state\<close> holds the values the
  variables have before the loop.
\<close>

definition init_state :: "event \<Rightarrow> sum_state" where
  "init_state first =
     \<lparr>st_model = None, st_provider = None, st_channel = None,
      st_lastTs = e_timestamp first, st_msgCount = 0,
      st_tok = \<lparr>tok_input = 0, tok_output = 0, tok_cacheRead = 0, tok_total = 0\<rparr>,
      st_cost = 0, st_subAgents = []\<rparr>"

definition parseSessionSummary :: "string \<Rightarrow> string \<Rightarrow> event list \<Rightarrow> summary option" where
  "parseSessionSummary fileName stem entries =
     (case entries of
        [] \<Rightarrow> None
      | first # _ \<Rightarrow>
          if e_type first \<noteq> Some ''session'' then None
          else
            let st = foldl summary_step (init_state first) entries
            in Some
                 \<lparr>s_id = nullish (e_id first) stem,
                  s_file = fileName,
                  s_startTime = e_timestamp first,
                  s_lastActivity = st_lastTs st,
                  s_model = st_model st,
                  s_provider = st_provider st,
                  s_channel = st_channel st,
                  s_messageCount = st_msgCount st,
                  s_tokenUsage = st_tok st,
                  s_cost = st_cost st,
                  s_subAgents = st_subAgents st\<rparr>)"

subsection \<open>Transcript\<close>

datatype transcript_entry =
    ModelChange (t_timestamp: string) (t_content: string)
  | Message (t_kind: string) (t_timestamp: string) (t_role: "string option") (t_content: string)
  | ToolCall (t_timestamp: string) (t_toolName: "string option") (t_toolArgs: string)
  | ToolResult (t_timestamp: string) (t_toolName: "string option") (t_result: string)

text \<open>The text of a tool result: the content if it is a string, the texts of the
  \<^verbatim>\<open>text\<close> sub-blocks if it is an array.\<close>

definition preview_step :: "string \<Rightarrow> sub_block \<Rightarrow> string" where
  "preview_step p rc = (if rc_type rc = Some ''text'' then p @ nullish (rc_text rc) [] else p)"

definition result_preview :: "result_content \<Rightarrow> string" where
  "result_preview c =
     (case c of RString s \<Rightarrow> s | RArray rcs \<Rightarrow> foldl preview_step [] rcs | RNone \<Rightarrow> [])"

definition role_kind :: "string option \<Rightarrow> string" where
  "role_kind role =
     (if role = Some ''user'' then ''user''
      else if role = Some ''assistant'' then ''assistant'' else ''system'')"

text \<open>\<^verbatim>\<open>b.text?.trim()\<close> as a condition.\<close>

definition has_text :: "block \<Rightarrow> bool" where
  "has_text b = (case b_text b of Some t \<Rightarrow> trim t \<noteq> [] | None \<Rightarrow> False)"

text \<open>The loop over the blocks of a message with array content.\<close>

definition transcript_block :: "string \<Rightarrow> string option \<Rightarrow> transcript_entry list \<Rightarrow> block \<Rightarrow> transcript_entry list" where
  "transcript_block ts role result b =
     (if b_type b = Some ''text'' \<and> has_text b
      then result @ [Message (role_kind role) ts role (truncate_str (nullish (b_text b) []) 2000)]
      else if b_type b = Some ''toolCall''
      then result @
           [ToolCall ts (b_toolName b) (truncate_str (a_json (nullish (b_args b) empty_args)) 1000)]
      else if b_type b = Some ''toolResult''
      then result @ [ToolResult ts (b_toolName b) (truncate_str (result_preview (b_content b)) 500)]
      else result)"

text \<open>One iteration of the loop over the events.\<close>

definition transcript_step :: "transcript_entry list \<Rightarrow> event \<Rightarrow> transcript_entry list" where
  "transcript_step result e =
     (let ts = nullish (e_timestamp e) []
      in if e_type e = Some ''model_change''
         then result @
              [ModelChange ts
                 (''Model '' @ [arrow] @ '' '' @ nullish (e_provider e) [] @ ''/'' @
                  nullish (e_modelId e) [])]
         else if e_type e \<noteq> Some ''message'' then result
         else
           (case e_message e of
              None \<Rightarrow> result
            | Some msg \<Rightarrow>
                (case m_content msg of
                   CString c \<Rightarrow>
                     result @
                     [Message (role_kind (m_role msg)) ts (m_role msg) (truncate_str c 2000)]
                 | CArray bs \<Rightarrow> foldl (transcript_block ts (m_role msg)) result bs
                 | CNone \<Rightarrow> result)))"

text \<open>\<^verbatim>\<open>parseTranscript(filePath)\<close>, on \<^verbatim>\<open>parseJsonl(filePath)\<close>.\<close>

definition parseTranscript :: "event list \<Rightarrow> transcript_entry list" where
  "parseTranscript entries = foldl transcript_step [] entries"

subsection \<open>Command stream\<close>

record cmd =
  c_sessionId :: string
  c_sessionFile :: string
  c_timestamp :: string
  c_toolName :: "string option"
  c_args :: string
  c_resultPreview :: string

text \<open>The value stored in \<^verbatim>\<open>calls\<close> for a \<^verbatim>\<open>toolCall\<close> block.\<close>

record call_info =
  ci_name :: "string option"
  ci_args :: string
  ci_ts :: string

text \<open>
  A JavaScript \<^verbatim>\<open>Map\<close> as an association list in insertion order: \<^verbatim>\<open>set\<close> on a key
  that is present replaces the value where the key stands, and appends otherwise.
\<close>

fun map_set :: "'k \<Rightarrow> 'v \<Rightarrow> ('k \<times> 'v) list \<Rightarrow> ('k \<times> 'v) list" where
  "map_set k v [] = [(k, v)]"
| "map_set k v (p # ps) = (if fst p = k then (k, v) # ps else p # map_set k v ps)"

fun map_get :: "('k \<times> 'v) list \<Rightarrow> 'k \<Rightarrow> 'v option" where
  "map_get [] k = None"
| "map_get (p # ps) k = (if fst p = k then Some (snd p) else map_get ps k)"

text \<open>The key of a block in both maps (\<^verbatim>\<open>b.toolCallId ?? ""\<close>), the value stored
  for a \<^verbatim>\<open>toolCall\<close> block and the value stored for a \<^verbatim>\<open>toolResult\<close> block.\<close>

definition call_key :: "block \<Rightarrow> string" where
  "call_key b = nullish (b_toolCallId b) []"

definition call_entry :: "string \<Rightarrow> block \<Rightarrow> call_info" where
  "call_entry ts b =
     \<lparr>ci_name = b_toolName b,
      ci_args = truncate_str (a_json (nullish (b_args b) empty_args)) 500,
      ci_ts = ts\<rparr>"

definition preview_entry :: "block \<Rightarrow> string" where
  "preview_entry b = truncate_str (result_preview (b_content b)) 300"

text \<open>The loop over the blocks of a message: the state is the pair of maps
  \<^verbatim>\<open>calls\<close> and \<^verbatim>\<open>results\<close>.\<close>

definition scan_block ::
  "string \<Rightarrow> (string \<times> call_info) list \<times> (string \<times> string) list \<Rightarrow> block
    \<Rightarrow> (string \<times> call_info) list \<times> (string \<times> string) list" where
  "scan_block ts maps b =
     (let calls = fst maps; results = snd maps;
          calls' =
            (if b_type b = Some ''toolCall''
             then map_set (call_key b) (call_entry ts b) calls else calls);
          results' =
            (if b_type b = Some ''toolResult''
             then map_set (call_key b) (preview_entry b) results else results)
      in (calls', results'))"

text \<open>The entries pushed for one message: one for each key of \<^verbatim>\<open>calls\<close>.\<close>

definition emit_cmds ::
  "string \<Rightarrow> string \<Rightarrow> (string \<times> call_info) list \<times> (string \<times> string) list \<Rightarrow> cmd list" where
  "emit_cmds sid file maps =
     map (\<lambda>(id, c).
            \<lparr>c_sessionId = sid, c_sessionFile = file, c_timestamp = ci_ts c,
             c_toolName = ci_name c, c_args = ci_args c,
             c_resultPreview = nullish (map_get (snd maps) id) []\<rparr>)
         (fst maps)"

text \<open>One iteration of the loop over the events of a file.\<close>

definition cmd_step :: "string \<Rightarrow> string \<Rightarrow> cmd list \<Rightarrow> event \<Rightarrow> cmd list" where
  "cmd_step sid file cmds e =
     (if e_type e \<noteq> Some ''message'' then cmds
      else
        (case e_message e of
           None \<Rightarrow> cmds
         | Some msg \<Rightarrow>
             (case m_content msg of
                CArray bs \<Rightarrow>
                  cmds @ emit_cmds sid file
                           (foldl (scan_block (nullish (e_timestamp e) [])) ([], []) bs)
              | _ \<Rightarrow> cmds)))"

text \<open>\<^verbatim>\<open>entries[0]?.id ?? file.replace(".jsonl", "")\<close>.\<close>

definition session_id :: "string \<Rightarrow> event list \<Rightarrow> string" where
  "session_id file entries =
     nullish (case entries of [] \<Rightarrow> None | first # _ \<Rightarrow> e_id first)
       (replace_first file ''.jsonl'' [])"

text \<open>
  The sessions directory as the source sees it: the names \<^verbatim>\<open>readdirSync\<close> returns
  (\<open>None\<close> when it throws), the \<^verbatim>\<open>mtimeMs\<close> of \<^verbatim>\<open>statSync\<close> for a name (\<open>None\<close>
  when it throws) and the events \<^verbatim>\<open>parseJsonl\<close> decodes from the file of that name.
\<close>

record sessions_dir =
  readdirSync :: "string list option"
  mtimeMs :: "string \<Rightarrow> int option"
  parseJsonl :: "string \<Rightarrow> event list"

text \<open>
  \<^verbatim>\<open>Array.prototype.sort\<close> and \<^verbatim>\<open>toSorted\<close> with a comparator, as insertion sort:
  each element in turn is placed before the first element of the sorted prefix that
  the comparator puts it before (a negative result).
\<close>

fun insert_by :: "('a \<Rightarrow> 'a \<Rightarrow> int) \<Rightarrow> 'a \<Rightarrow> 'a list \<Rightarrow> 'a list" where
  "insert_by cmp x [] = [x]"
| "insert_by cmp x (y # ys) = (if cmp x y < 0 then x # y # ys else y # insert_by cmp x ys)"

definition sort_by :: "('a \<Rightarrow> 'a \<Rightarrow> int) \<Rightarrow> 'a list \<Rightarrow> 'a list" where
  "sort_by cmp xs = foldl (\<lambda>acc x. insert_by cmp x acc) [] xs"

text \<open>\<^verbatim>\<open>(a, b) => b.mt - a.mt\<close> and \<^verbatim>\<open>(a, b) => (b.timestamp > a.timestamp ? 1 : -1)\<close>.\<close>

definition cmp_mt :: "string \<times> int \<Rightarrow> string \<times> int \<Rightarrow> int" where
  "cmp_mt a b = snd b - snd a"

definition cmp_timestamp :: "cmd \<Rightarrow> cmd \<Rightarrow> int" where
  "cmp_timestamp a b = (if c_timestamp b > c_timestamp a then 1 else - 1)"

text \<open>The names with their modification times; \<open>None\<close> when a \<^verbatim>\<open>statSync\<close> throws.\<close>

fun stat_all :: "(string \<Rightarrow> int option) \<Rightarrow> string list \<Rightarrow> (string \<times> int) list option" where
  "stat_all stat [] = Some []"
| "stat_all stat (f # fs) =
     (case stat f of
        None \<Rightarrow> None
      | Some mt \<Rightarrow> (case stat_all stat fs of None \<Rightarrow> None | Some r \<Rightarrow> Some ((f, mt) # r)))"

text \<open>The \<^verbatim>\<open>try\<close> block: the files to scan, \<open>None\<close> when it throws.\<close>

definition list_files :: "sessions_dir \<Rightarrow> nat \<Rightarrow> string list option" where
  "list_files dir maxFiles =
     (case readdirSync dir of
        None \<Rightarrow> None
      | Some names \<Rightarrow>
          (case stat_all (mtimeMs dir)
                  (filter (\<lambda>f. endsWith f ''.jsonl'' \<and> \<not> includes_str f ''.reset.'') names) of
             None \<Rightarrow> None
           | Some withMt \<Rightarrow> Some (map fst (take maxFiles (sort_by cmp_mt withMt)))))"

text \<open>The loop over the files, with its \<^verbatim>\<open>break\<close> once \<^verbatim>\<open>cmds.length >= maxCmds\<close>.\<close>

fun scan_files :: "sessions_dir \<Rightarrow> nat \<Rightarrow> cmd list \<Rightarrow> string list \<Rightarrow> cmd list" where
  "scan_files dir maxCmds cmds [] = cmds"
| "scan_files dir maxCmds cmds (file # files) =
     (let entries = parseJsonl dir file;
          cmds' = foldl (cmd_step (session_id file entries) file) cmds entries
      in if length cmds' \<ge> maxCmds then cmds' else scan_files dir maxCmds cmds' files)"

definition extractCommands :: "sessions_dir \<Rightarrow> nat \<Rightarrow> nat \<Rightarrow> cmd list" where
  "extractCommands dir maxFiles maxCmds =
     (case list_files dir maxFiles of
        None \<Rightarrow> []
      | Some files \<Rightarrow> take maxCmds (sort_by cmp_timestamp (scan_files dir maxCmds [] files)))"

subsection \<open>Reference definitions and sample values\<close>

text \<open>The definitions of this subsection are not part of the program: they are what
  the properties below compare the program with, and the values they are tried on.
  First an event, a message, a block and a usage object with no property set.\<close>

definition no_event :: event where
  "no_event =
     \<lparr>e_type = None, e_id = None, e_timestamp = None, e_modelId = None, e_provider = None,
      e_customType = None, e_data = None, e_message = None\<rparr>"

definition no_message :: message where
  "no_message = \<lparr>m_role = None, m_channel = None, m_usage = None, m_content = CNone\<rparr>"

definition no_block :: block where
  "no_block =
     \<lparr>b_type = None, b_text = None, b_toolCallId = None, b_toolName = None, b_args = None,
      b_content = RNone\<rparr>"

definition no_usage :: msg_usage where
  "no_usage =
     \<lparr>u_input = None, u_output = None, u_cacheRead = None, u_totalTokens = None,
      u_cost_total = None\<rparr>"

text \<open>The \<^verbatim>\<open>usage\<close> object of an event of type \<^verbatim>\<open>message\<close>, and one of its fields
  with 0 for whatever is missing.\<close>

definition usage_of :: "event \<Rightarrow> msg_usage option" where
  "usage_of e =
     (if e_type e = Some ''message''
      then (case e_message e of Some msg \<Rightarrow> m_usage msg | None \<Rightarrow> None)
      else None)"

definition usage_field :: "(msg_usage \<Rightarrow> int option) \<Rightarrow> event \<Rightarrow> int" where
  "usage_field fld e = (case usage_of e of Some u \<Rightarrow> nullish (fld u) 0 | None \<Rightarrow> 0)"

text \<open>The model identifier and the provider an event supplies as a \<^verbatim>\<open>model_change\<close>
  record or as a \<^verbatim>\<open>custom\<close> record of custom type \<^verbatim>\<open>model-snapshot\<close>.\<close>

definition is_model_record :: "event \<Rightarrow> bool" where
  "is_model_record e =
     (e_type e = Some ''model_change'' \<or>
      (e_type e = Some ''custom'' \<and> e_customType e = Some ''model-snapshot''))"

definition supplied_modelId :: "event \<Rightarrow> string option" where
  "supplied_modelId e =
     (if e_type e = Some ''model_change'' then e_modelId e
      else if e_type e = Some ''custom'' \<and> e_customType e = Some ''model-snapshot''
      then (case e_data e of Some d \<Rightarrow> d_modelId d | None \<Rightarrow> None)
      else None)"

definition supplied_provider :: "event \<Rightarrow> string option" where
  "supplied_provider e =
     (if e_type e = Some ''model_change'' then e_provider e
      else if e_type e = Some ''custom'' \<and> e_customType e = Some ''model-snapshot''
      then (case e_data e of Some d \<Rightarrow> d_provider d | None \<Rightarrow> None)
      else None)"

definition last_opt :: "'a list \<Rightarrow> 'a option" where
  "last_opt xs = (case xs of [] \<Rightarrow> None | _ # _ \<Rightarrow> Some (last xs))"

text \<open>The number of blocks of type \<^verbatim>\<open>text\<close>, \<^verbatim>\<open>toolCall\<close> or \<^verbatim>\<open>toolResult\<close> of an
  event of type \<^verbatim>\<open>message\<close> (a string body being one block of text), and one for an
  event of type \<^verbatim>\<open>model_change\<close>.\<close>

definition is_unit_block :: "block \<Rightarrow> bool" where
  "is_unit_block b =
     (b_type b = Some ''text'' \<or> b_type b = Some ''toolCall'' \<or> b_type b = Some ''toolResult'')"

definition block_count :: "event \<Rightarrow> nat" where
  "block_count e =
     (if e_type e = Some ''model_change'' then 1
      else if e_type e = Some ''message''
      then (case e_message e of
              Some msg \<Rightarrow>
                (case m_content msg of
                   CString c \<Rightarrow> 1
                 | CArray bs \<Rightarrow> length (filter is_unit_block bs)
                 | CNone \<Rightarrow> 0)
            | None \<Rightarrow> 0)
      else 0)"

text \<open>The number of entries an event has in the transcript: a \<^verbatim>\<open>text\<close> block counts
  only with text that is not blank (some character of it is not white space), and a
  string body counts as one.\<close>

definition is_shown_block :: "block \<Rightarrow> bool" where
  "is_shown_block b =
     ((b_type b = Some ''text'' \<and>
       (case b_text b of Some t \<Rightarrow> \<not> list_all is_space t | None \<Rightarrow> False)) \<or>
      b_type b = Some ''toolCall'' \<or>
      b_type b = Some ''toolResult'')"

definition entry_count :: "event \<Rightarrow> nat" where
  "entry_count e =
     (if e_type e = Some ''model_change'' then 1
      else if e_type e = Some ''message''
      then (case e_message e of
              Some msg \<Rightarrow>
                (case m_content msg of
                   CString c \<Rightarrow> 1
                 | CArray bs \<Rightarrow> length (filter is_shown_block bs)
                 | CNone \<Rightarrow> 0)
            | None \<Rightarrow> 0)
      else 0)"

text \<open>The identifier of a block, the empty string for a block that has none. The
  \<^verbatim>\<open>toolCall\<close> and the \<^verbatim>\<open>toolResult\<close> blocks of a message with a given identifier,
  the identifiers of the \<^verbatim>\<open>toolCall\<close> blocks in the order of their first occurrence,
  and the entry an identifier stands for: the last \<^verbatim>\<open>toolCall\<close> block with it, and the
  text of the last \<^verbatim>\<open>toolResult\<close> block with it, if any, truncated to 300
  characters.\<close>

definition id_or_empty :: "block \<Rightarrow> string" where
  "id_or_empty b = (case b_toolCallId b of Some i \<Rightarrow> i | None \<Rightarrow> [])"

definition calls_with :: "string \<Rightarrow> block list \<Rightarrow> block list" where
  "calls_with k bs = filter (\<lambda>b. b_type b = Some ''toolCall'' \<and> id_or_empty b = k) bs"

definition results_with :: "string \<Rightarrow> block list \<Rightarrow> block list" where
  "results_with k bs = filter (\<lambda>b. b_type b = Some ''toolResult'' \<and> id_or_empty b = k) bs"

definition keys_in_order :: "block list \<Rightarrow> string list" where
  "keys_in_order bs =
     rev (remdups (rev (map id_or_empty (filter (\<lambda>b. b_type b = Some ''toolCall'') bs))))"

definition cmd_for_key :: "string \<Rightarrow> string \<Rightarrow> string \<Rightarrow> block list \<Rightarrow> string \<Rightarrow> cmd" where
  "cmd_for_key sid file ts bs k =
     (let c = last (calls_with k bs)
      in \<lparr>c_sessionId = sid, c_sessionFile = file, c_timestamp = ts,
          c_toolName = b_toolName c,
          c_args = truncate_str (a_json (nullish (b_args c) empty_args)) 500,
          c_resultPreview =
            (case results_with k bs of
               [] \<Rightarrow> []
             | _ # _ \<Rightarrow>
                 truncate_str (result_preview (b_content (last (results_with k bs)))) 300)\<rparr>)"

text \<open>A message event with an array of blocks, and a sessions directory with the one
  file \<^verbatim>\<open>s1.jsonl\<close>.\<close>

definition msg_event :: "string \<Rightarrow> block list \<Rightarrow> event" where
  "msg_event ts bs =
     no_event\<lparr>e_type := Some ''message'', e_timestamp := Some ts,
              e_message := Some (no_message\<lparr>m_role := Some ''assistant'', m_content := CArray bs\<rparr>)\<rparr>"

definition one_file_dir :: "event list \<Rightarrow> sessions_dir" where
  "one_file_dir entries =
     \<lparr>readdirSync = Some [''s1.jsonl''], mtimeMs = (\<lambda>f. Some 1700000000000),
      parseJsonl = (\<lambda>f. if f = ''s1.jsonl'' then entries else [])\<rparr>"

definition call_t1 :: block where
  "call_t1 =
     no_block\<lparr>b_type := Some ''toolCall'', b_toolCallId := Some ''t1'',
              b_toolName := Some ''exec''\<rparr>"

definition result_t1 :: block where
  "result_t1 =
     no_block\<lparr>b_type := Some ''toolResult'', b_toolCallId := Some ''t1'',
              b_toolName := Some ''exec'', b_content := RString ''done''\<rparr>"

text \<open>A \<^verbatim>\<open>text\<close> block whose text is one space.\<close>

definition blank_text :: block where
  "blank_text = no_block\<lparr>b_type := Some ''text'', b_text := Some '' ''\<rparr>"

text \<open>The session file of two lines: a session record and a user message with usage.\<close>

definition ev_session :: event where
  "ev_session =
     no_event\<lparr>e_type := Some ''session'', e_id := Some ''S1'',
              e_timestamp := Some ''2024-01-01T00:00:00Z''\<rparr>"

definition ev_user_msg :: event where
  "ev_user_msg =
     no_event\<lparr>e_type := Some ''message'', e_timestamp := Some ''2024-01-01T00:05:00Z'',
              e_message :=
                Some (no_message\<lparr>m_role := Some ''user'',
                        m_usage := Some (no_usage\<lparr>u_input := Some 5, u_output := Some 0\<rparr>),
                        m_content := CString ''hi''\<rparr>)\<rparr>"

text \<open>Two \<^verbatim>\<open>model_change\<close> records, the second without a model identifier.\<close>

definition ev_model_full :: event where
  "ev_model_full =
     no_event\<lparr>e_type := Some ''model_change'', e_modelId := Some ''m1'',
              e_provider := Some ''p1''\<rparr>"

definition ev_model_partial :: event where
  "ev_model_partial = no_event\<lparr>e_type := Some ''model_change'', e_provider := Some ''p2''\<rparr>"

section \<open>Properties\<close>

subsection \<open>Truncation\<close>

text \<open>
  C9. A string of at most \<open>n\<close> characters is returned unchanged; a longer one becomes
  its first \<open>n\<close> characters followed by the one-character ellipsis, \<open>n + 1\<close> characters
  in all. Truncating twice is truncating once.
\<close>

theorem truncate_short_or_cut:
  "(length s \<le> n \<longrightarrow> truncate_str s n = s) \<and>
   (n < length s \<longrightarrow>
      truncate_str s n = take n s @ [ellipsis] \<and> length (truncate_str s n) = n + 1) \<and>
   truncate_str (truncate_str s n) n = truncate_str s n"
  by (simp add: truncate_str_def)

theorem truncate_short_or_cut_witness:
  "truncate_str ''ab'' 3 = ''ab'' \<and>
   truncate_str ''abcdef'' 3 = ''abc'' @ [ellipsis] \<and>
   length (truncate_str ''abcdef'' 3) = 4"
  using truncate_short_or_cut [of "''ab''" 3] truncate_short_or_cut [of "''abcdef''" 3]
  by simp

subsection \<open>Session summary\<close>

text \<open>What each statement of the loop body leaves unchanged.\<close>

lemma note_timestamp_fields [simp]:
  "st_tok (note_timestamp e st) = st_tok st"
  "st_model (note_timestamp e st) = st_model st"
  "st_provider (note_timestamp e st) = st_provider st"
  by (simp_all add: note_timestamp_def split: option.split)

lemma note_model_change_fields [simp]:
  "st_tok (note_model_change e st) = st_tok st"
  "st_lastTs (note_model_change e st) = st_lastTs st"
  by (simp_all add: note_model_change_def)

lemma note_model_snapshot_fields [simp]:
  "st_tok (note_model_snapshot e st) = st_tok st"
  "st_lastTs (note_model_snapshot e st) = st_lastTs st"
  by (simp_all add: note_model_snapshot_def split: option.split)

lemma note_channel_fields [simp]:
  "st_tok (note_channel m st) = st_tok st"
  "st_lastTs (note_channel m st) = st_lastTs st"
  "st_model (note_channel m st) = st_model st"
  "st_provider (note_channel m st) = st_provider st"
  by (simp_all add: note_channel_def)

lemma note_usage_fields [simp]:
  "st_lastTs (note_usage m st) = st_lastTs st"
  "st_model (note_usage m st) = st_model st"
  "st_provider (note_usage m st) = st_provider st"
  by (simp_all add: note_usage_def add_usage_def split: option.split)

lemma note_spawns_fields [simp]:
  "st_tok (note_spawns e m st) = st_tok st"
  "st_lastTs (note_spawns e m st) = st_lastTs st"
  "st_model (note_spawns e m st) = st_model st"
  "st_provider (note_spawns e m st) = st_provider st"
  by (simp_all add: note_spawns_def split: msg_content.split)

lemma note_message_fields [simp]:
  "st_lastTs (note_message e st) = st_lastTs st"
  "st_model (note_message e st) = st_model st"
  "st_provider (note_message e st) = st_provider st"
  by (simp_all add: note_message_def Let_def split: option.split)

lemma init_state_fields [simp]:
  "st_tok (init_state e) = \<lparr>tok_input = 0, tok_output = 0, tok_cacheRead = 0, tok_total = 0\<rparr>"
  "st_lastTs (init_state e) = e_timestamp e"
  "st_model (init_state e) = None"
  "st_provider (init_state e) = None"
  by (simp_all add: init_state_def)

text \<open>What one iteration does to each variable.\<close>

lemma step_lastTs:
  "st_lastTs (summary_step st e) =
     (case e_timestamp e of
        Some t \<Rightarrow> if t \<noteq> [] \<and> js_gt t (st_lastTs st) then Some t else st_lastTs st
      | None \<Rightarrow> st_lastTs st)"
  by (simp add: summary_step_def note_timestamp_def split: option.split)

lemma step_model:
  "st_model (summary_step st e) = nullish_opt (supplied_modelId e) (st_model st)"
  by (simp add: summary_step_def note_model_change_def note_model_snapshot_def
      supplied_modelId_def nullish_opt_def split: option.split)

lemma step_provider:
  "st_provider (summary_step st e) = nullish_opt (supplied_provider e) (st_provider st)"
  by (simp add: summary_step_def note_model_change_def note_model_snapshot_def
      supplied_provider_def nullish_opt_def split: option.split)

lemma step_tok:
  "st_tok (summary_step st e) =
     (case usage_of e of
        Some u \<Rightarrow>
          \<lparr>tok_input = tok_input (st_tok st) + nullish (u_input u) 0,
           tok_output = tok_output (st_tok st) + nullish (u_output u) 0,
           tok_cacheRead = tok_cacheRead (st_tok st) + nullish (u_cacheRead u) 0,
           tok_total = tok_total (st_tok st) + nullish (u_totalTokens u) 0\<rparr>
      | None \<Rightarrow> st_tok st)"
  by (simp add: summary_step_def note_message_def note_usage_def usage_of_def add_usage_def
      Let_def split: option.split)

lemma usage_field_step:
  "tok_total (st_tok (summary_step st e)) = tok_total (st_tok st) + usage_field u_totalTokens e"
  "tok_input (st_tok (summary_step st e)) = tok_input (st_tok st) + usage_field u_input e"
  "tok_output (st_tok (summary_step st e)) = tok_output (st_tok st) + usage_field u_output e"
  "tok_cacheRead (st_tok (summary_step st e)) =
     tok_cacheRead (st_tok st) + usage_field u_cacheRead e"
  by (simp_all add: step_tok usage_field_def split: option.split)

text \<open>The whole loop, from any state.\<close>

lemma fold_tok:
  "tok_total (st_tok (foldl summary_step st es)) =
     tok_total (st_tok st) + sum_list (map (usage_field u_totalTokens) es)"
  "tok_input (st_tok (foldl summary_step st es)) =
     tok_input (st_tok st) + sum_list (map (usage_field u_input) es)"
  "tok_output (st_tok (foldl summary_step st es)) =
     tok_output (st_tok st) + sum_list (map (usage_field u_output) es)"
  "tok_cacheRead (st_tok (foldl summary_step st es)) =
     tok_cacheRead (st_tok st) + sum_list (map (usage_field u_cacheRead) es)"
  by (induction es arbitrary: st; simp add: usage_field_step)+

lemma fold_model:
  "st_model (foldl summary_step st es) =
     nullish_opt (last_opt (List.map_filter supplied_modelId es)) (st_model st)"
proof (induction es arbitrary: st)
  case Nil
  then show ?case by (simp add: last_opt_def nullish_opt_def List.map_filter_simps)
next
  case (Cons e es)
  show ?case
    by (simp add: Cons.IH step_model last_opt_def nullish_opt_def List.map_filter_simps
        split: option.split list.split)
qed

lemma fold_provider:
  "st_provider (foldl summary_step st es) =
     nullish_opt (last_opt (List.map_filter supplied_provider es)) (st_provider st)"
proof (induction es arbitrary: st)
  case Nil
  then show ?case by (simp add: last_opt_def nullish_opt_def List.map_filter_simps)
next
  case (Cons e es)
  show ?case
    by (simp add: Cons.IH step_provider last_opt_def nullish_opt_def List.map_filter_simps
        split: option.split list.split)
qed

lemma Max_insert_max:
  fixes l :: "'a::linorder"
  shows "finite S \<Longrightarrow> Max (insert (max l t) S) = max l (Max (insert t S))"
  by (cases "S = {}") (simp_all add: max.assoc)

lemma fold_lastTs:
  "st_lastTs st = Some l \<Longrightarrow>
   st_lastTs (foldl summary_step st es) =
     Some (Max (insert l (set (List.map_filter e_timestamp es))))"
proof (induction es arbitrary: st l)
  case Nil
  then show ?case by (simp add: List.map_filter_simps)
next
  case (Cons e es)
  show ?case
  proof (cases "e_timestamp e")
    case None
    then have "st_lastTs (summary_step st e) = Some l"
      using Cons.prems by (simp add: step_lastTs)
    from Cons.IH[OF this] None show ?thesis by (simp add: List.map_filter_simps)
  next
    case (Some t)
    then have "st_lastTs (summary_step st e) = Some (max l t)"
      using Cons.prems by (auto simp: step_lastTs js_gt_def max_def)
    from Cons.IH[OF this] Some show ?thesis
      by (simp add: List.map_filter_simps Max_insert_max)
  qed
qed

text \<open>A summary that is returned comes from the loop over all the events, started at
  the first one.\<close>

lemma summary_Some:
  assumes "parseSessionSummary f stem entries = Some s"
  shows "entries \<noteq> []" and "e_type (hd entries) = Some ''session''"
    and "s_tokenUsage s = st_tok (foldl summary_step (init_state (hd entries)) entries)"
    and "s_lastActivity s = st_lastTs (foldl summary_step (init_state (hd entries)) entries)"
    and "s_model s = st_model (foldl summary_step (init_state (hd entries)) entries)"
    and "s_provider s = st_provider (foldl summary_step (init_state (hd entries)) entries)"
  using assms
  by (cases entries;
      auto simp: parseSessionSummary_def Let_def simp del: foldl.simps split: if_splits)+

lemmas summary_eval =
  parseSessionSummary_def init_state_def summary_step_def note_timestamp_def
  note_model_change_def note_model_snapshot_def note_message_def note_channel_def
  note_usage_def note_spawns_def add_usage_def spawn_step_def js_gt_def truthy_def
  nullish_def nullish_opt_def no_event_def no_message_def no_usage_def no_block_def
  ev_session_def ev_user_msg_def ev_model_full_def ev_model_partial_def Let_def

text \<open>The session file of two lines gives the summary with identifier \<^verbatim>\<open>S1\<close>, one
  message, five input tokens and the time stamp of the message as last activity.\<close>

lemma summary_example:
  "parseSessionSummary ''S1.jsonl'' ''S1'' [ev_session, ev_user_msg] =
     Some
       \<lparr>s_id = ''S1'', s_file = ''S1.jsonl'', s_startTime = Some ''2024-01-01T00:00:00Z'',
        s_lastActivity = Some ''2024-01-01T00:05:00Z'', s_model = None, s_provider = None,
        s_channel = None, s_messageCount = 1,
        s_tokenUsage = \<lparr>tok_input = 5, tok_output = 0, tok_cacheRead = 0, tok_total = 0\<rparr>,
        s_cost = 0, s_subAgents = []\<rparr>"
  by (simp add: summary_eval)

text \<open>
  C5. No summary is returned exactly when there is no event or the first event is not
  of type \<^verbatim>\<open>session\<close>; when the first event is of type \<^verbatim>\<open>session\<close> a summary is
  returned, with the file name, the start time and the identifier of that event.
\<close>

theorem summary_absent_iff:
  "(parseSessionSummary f stem entries = None) =
     (entries = [] \<or> e_type (hd entries) \<noteq> Some ''session'') \<and>
   (e_type first = Some ''session'' \<longrightarrow>
      (\<exists>s. parseSessionSummary f stem (first # rest) = Some s \<and> s_file s = f \<and>
           s_startTime s = e_timestamp first \<and> s_id s = nullish (e_id first) stem))"
  by (cases entries) (simp_all add: parseSessionSummary_def Let_def)

theorem summary_absent_iff_witness:
  "parseSessionSummary ''S1.jsonl'' ''S1'' [] = None \<and>
   parseSessionSummary ''S1.jsonl'' ''S1'' [ev_user_msg] = None \<and>
   (\<exists>s. parseSessionSummary ''S1.jsonl'' ''S1'' [ev_session, ev_user_msg] = Some s \<and>
        s_file s = ''S1.jsonl'' \<and> s_startTime s = Some ''2024-01-01T00:00:00Z'' \<and>
        s_id s = ''S1'')"
  using summary_absent_iff [of "''S1.jsonl''" "''S1''" "[]" ev_session "[ev_user_msg]"]
    summary_absent_iff [of "''S1.jsonl''" "''S1''" "[ev_user_msg]" ev_session "[ev_user_msg]"]
  by (simp add: ev_session_def ev_user_msg_def no_event_def nullish_def)

text \<open>
  C6. The four token totals of a summary are the sums, over the events of type
  \<^verbatim>\<open>message\<close>, of the fields \<^verbatim>\<open>totalTokens\<close>, \<^verbatim>\<open>input\<close>, \<^verbatim>\<open>output\<close> and
  \<^verbatim>\<open>cacheRead\<close> of the usage object, a missing message, usage object or field
  counting 0.
\<close>

theorem token_usage_sums:
  assumes "parseSessionSummary f stem entries = Some s"
  shows "tok_total (s_tokenUsage s) = sum_list (map (usage_field u_totalTokens) entries) \<and>
         tok_input (s_tokenUsage s) = sum_list (map (usage_field u_input) entries) \<and>
         tok_output (s_tokenUsage s) = sum_list (map (usage_field u_output) entries) \<and>
         tok_cacheRead (s_tokenUsage s) = sum_list (map (usage_field u_cacheRead) entries)"
  by (simp add: summary_Some(3)[OF assms] fold_tok)

theorem token_usage_sums_witness:
  "\<exists>s. parseSessionSummary ''S1.jsonl'' ''S1'' [ev_session, ev_user_msg] = Some s \<and>
       tok_total (s_tokenUsage s) = 0 \<and> tok_input (s_tokenUsage s) = 5 \<and>
       tok_output (s_tokenUsage s) = 0 \<and> tok_cacheRead (s_tokenUsage s) = 0"
proof -
  obtain s where s: "parseSessionSummary ''S1.jsonl'' ''S1'' [ev_session, ev_user_msg] = Some s"
    by (simp add: parseSessionSummary_def ev_session_def no_event_def Let_def)
  from token_usage_sums [OF s]
  have "tok_total (s_tokenUsage s) = 0 \<and> tok_input (s_tokenUsage s) = 5 \<and>
        tok_output (s_tokenUsage s) = 0 \<and> tok_cacheRead (s_tokenUsage s) = 0"
    by (simp add: usage_field_def usage_of_def ev_session_def ev_user_msg_def no_event_def
        no_message_def no_usage_def nullish_def)
  with s show ?thesis by blast
qed

text \<open>
  C4, amended. The model of a summary is the model identifier of the last
  \<^verbatim>\<open>model_change\<close> or \<^verbatim>\<open>model-snapshot\<close> record that supplies one, and is absent when
  none does; the provider likewise, on its own.
\<close>

theorem model_last_supplied:
  assumes "parseSessionSummary f stem entries = Some s"
  shows "s_model s = last_opt (List.map_filter supplied_modelId entries) \<and>
         s_provider s = last_opt (List.map_filter supplied_provider entries)"
  by (simp add: summary_Some(5,6)[OF assms] fold_model fold_provider nullish_opt_def
      split: option.split)

theorem model_last_supplied_witness:
  "\<exists>s. parseSessionSummary ''S1.jsonl'' ''S1'' [ev_session, ev_model_full, ev_model_partial] =
         Some s \<and> s_model s = Some ''m1'' \<and> s_provider s = Some ''p2''"
proof -
  obtain s where
    s: "parseSessionSummary ''S1.jsonl'' ''S1'' [ev_session, ev_model_full, ev_model_partial] =
          Some s"
    by (simp add: parseSessionSummary_def ev_session_def no_event_def Let_def)
  from model_last_supplied [OF s]
  have "s_model s = Some ''m1'' \<and> s_provider s = Some ''p2''"
    by (simp add: supplied_modelId_def supplied_provider_def last_opt_def
        List.map_filter_simps ev_session_def ev_model_full_def ev_model_partial_def
        no_event_def)
  with s show ?thesis by blast
qed

text \<open>
  The claim as written fails: the last \<^verbatim>\<open>model_change\<close> record below carries no model
  identifier, and the summary keeps the one of the record before it.
\<close>

theorem model_last_record_counterexample:
  "map_option s_model
     (parseSessionSummary ''S1.jsonl'' ''S1'' [ev_session, ev_model_full, ev_model_partial]) =
     Some (Some ''m1'') \<and>
   is_model_record ev_model_partial \<and> e_modelId ev_model_partial = None"
  by (simp add: summary_eval is_model_record_def)

text \<open>
  C8, amended. When the first event carries a time stamp, the last activity of the
  summary is the greatest time stamp, in the order of strings, among those present on
  the events.
\<close>

theorem lastActivity_max:
  assumes "parseSessionSummary f stem (first # rest) = Some s"
    and "e_timestamp first = Some t0"
  shows "s_lastActivity s = Some (Max (set (List.map_filter e_timestamp (first # rest))))"
proof -
  have "insert t0 (set (List.map_filter e_timestamp (first # rest))) =
          set (List.map_filter e_timestamp (first # rest))"
    using assms(2) by (auto simp: List.map_filter_simps)
  moreover have "s_lastActivity s =
      Some (Max (insert t0 (set (List.map_filter e_timestamp (first # rest)))))"
    using summary_Some(4)[OF assms(1)] fold_lastTs[where l = t0 and st = "init_state first"]
    by (simp add: assms(2) del: foldl.simps)
  ultimately show ?thesis by simp
qed

theorem lastActivity_max_witness:
  "\<exists>s. parseSessionSummary ''S1.jsonl'' ''S1''
         [ev_session, ev_user_msg, ev_session\<lparr>e_type := Some ''other''\<rparr>] = Some s \<and>
       s_lastActivity s = Some ''2024-01-01T00:05:00Z''"
proof -
  obtain s where
    s: "parseSessionSummary ''S1.jsonl'' ''S1''
          [ev_session, ev_user_msg, ev_session\<lparr>e_type := Some ''other''\<rparr>] = Some s"
    by (simp add: parseSessionSummary_def ev_session_def no_event_def Let_def)
  have t: "e_timestamp ev_session = Some ''2024-01-01T00:00:00Z''"
    by (simp add: ev_session_def no_event_def)
  from lastActivity_max [OF s t]
  have "s_lastActivity s = Some ''2024-01-01T00:05:00Z''"
    by (simp add: List.map_filter_simps ev_session_def ev_user_msg_def no_event_def)
  with s show ?thesis by blast
qed

text \<open>
  The claim as written fails when the first event has no time stamp: the comparison
  with the absent value is never true, and the last activity stays absent whatever the
  later events carry.
\<close>

theorem lastActivity_counterexample:
  "map_option s_lastActivity
     (parseSessionSummary ''S1.jsonl'' ''S1'' [ev_session\<lparr>e_timestamp := None\<rparr>, ev_user_msg]) =
     Some None \<and>
   List.map_filter e_timestamp [ev_session\<lparr>e_timestamp := None\<rparr>, ev_user_msg] =
     [''2024-01-01T00:05:00Z'']"
  by (simp add: summary_eval List.map_filter_simps)

subsection \<open>Transcript\<close>

text \<open>Both loops only append: what they return is what they were given, followed by
  what each element adds on its own.\<close>

lemma transcript_block_acc:
  "transcript_block ts role result b = result @ transcript_block ts role [] b"
  by (simp add: transcript_block_def)

lemma fold_transcript_block:
  "foldl (transcript_block ts role) result bs =
     result @ concat (map (transcript_block ts role []) bs)"
proof (induction bs arbitrary: result)
  case Nil
  show ?case by simp
next
  case (Cons b bs)
  show ?case
    using transcript_block_acc[of ts role result b] by (simp add: Cons.IH)
qed

lemma trim_Nil_iff: "trim t = [] \<longleftrightarrow> list_all is_space t"
proof
  assume "trim t = []"
  then have "\<forall>c\<in>set (dropWhile is_space t). is_space c"
    by (simp add: trim_def dropWhile_eq_Nil_conv)
  then have "dropWhile is_space t = []"
    using hd_dropWhile[of is_space t] by (cases "dropWhile is_space t") auto
  then show "list_all is_space t"
    by (simp add: dropWhile_eq_Nil_conv list_all_iff)
next
  assume "list_all is_space t"
  then show "trim t = []"
    by (auto simp: trim_def list_all_iff dest: set_dropWhileD)
qed

lemma has_text_iff:
  "has_text b = (case b_text b of Some t \<Rightarrow> \<not> list_all is_space t | None \<Rightarrow> False)"
  by (simp add: has_text_def trim_Nil_iff split: option.split)

lemma length_transcript_block:
  "length (transcript_block ts role [] b) = (if is_shown_block b then 1 else 0)"
  by (simp add: transcript_block_def is_shown_block_def has_text_iff)

lemma length_fold_transcript_block:
  "length (foldl (transcript_block ts role) [] bs) = length (filter is_shown_block bs)"
  by (induction bs) (simp_all add: fold_transcript_block length_transcript_block)

lemma transcript_step_acc:
  "transcript_step result e = result @ transcript_step [] e"
  using fold_transcript_block[of _ _ result] fold_transcript_block[of _ _ "[]"]
  by (simp add: transcript_step_def Let_def split: option.split msg_content.split)

lemma fold_transcript_step:
  "foldl transcript_step result es = result @ concat (map (transcript_step []) es)"
proof (induction es arbitrary: result)
  case Nil
  show ?case by simp
next
  case (Cons e es)
  show ?case
    using transcript_step_acc[of result e] by (simp add: Cons.IH)
qed

lemma length_transcript_step:
  "length (transcript_step [] e) = entry_count e"
  by (simp add: transcript_step_def entry_count_def Let_def length_fold_transcript_block
      split: option.split msg_content.split)

text \<open>
  C3, amended. The transcript has one entry for each \<^verbatim>\<open>model_change\<close> event, one for
  each message with a string body, and for a message with an array body one for each
  \<^verbatim>\<open>toolCall\<close> block, each \<^verbatim>\<open>toolResult\<close> block and each \<^verbatim>\<open>text\<close> block whose text is
  not blank. The entries stand in file order: the transcript is the entries of the
  first event, then those of the second, and so on, and the entries of a message are
  those of its blocks in the order of the blocks.
\<close>

theorem transcript_count_and_order:
  "length (parseTranscript entries) = sum_list (map entry_count entries) \<and>
   parseTranscript entries = concat (map (\<lambda>e. parseTranscript [e]) entries) \<and>
   (\<forall>ts role bs.
      parseTranscript
        [no_event\<lparr>e_type := Some ''message'', e_timestamp := Some ts,
           e_message := Some (no_message\<lparr>m_role := role, m_content := CArray bs\<rparr>)\<rparr>] =
      concat (map (transcript_block ts role []) bs))"
proof (intro conjI)
  show "length (parseTranscript entries) = sum_list (map entry_count entries)"
    by (simp add: parseTranscript_def fold_transcript_step length_concat comp_def
        length_transcript_step)
  show "parseTranscript entries = concat (map (\<lambda>e. parseTranscript [e]) entries)"
    by (simp add: parseTranscript_def fold_transcript_step)
  show "\<forall>ts role bs.
      parseTranscript
        [no_event\<lparr>e_type := Some ''message'', e_timestamp := Some ts,
           e_message := Some (no_message\<lparr>m_role := role, m_content := CArray bs\<rparr>)\<rparr>] =
      concat (map (transcript_block ts role []) bs)"
    by (simp add: parseTranscript_def transcript_step_def no_event_def no_message_def
        nullish_def fold_transcript_block)
qed

text \<open>
  The claim as written fails on a \<^verbatim>\<open>text\<close> block with blank text: it is a block of
  type \<^verbatim>\<open>text\<close> in a message, and the transcript has no entry for it.
\<close>

theorem transcript_count_counterexample:
  "parseTranscript [msg_event ''2024-01-01T00:05:00Z'' [blank_text]] = [] \<and>
   sum_list (map block_count [msg_event ''2024-01-01T00:05:00Z'' [blank_text]]) = 1"
  by (simp add: parseTranscript_def transcript_step_def transcript_block_def has_text_def
      trim_def is_space_def block_count_def is_unit_block_def msg_event_def blank_text_def
      no_event_def no_message_def no_block_def Let_def)

subsection \<open>Command stream\<close>

lemma set_insert_by: "set (insert_by cmp x ys) = insert x (set ys)"
  by (induction ys) auto

lemma sorted_insert_by_timestamp:
  "sorted_wrt (\<lambda>a b. c_timestamp a \<ge> c_timestamp b) ys \<Longrightarrow>
   sorted_wrt (\<lambda>a b. c_timestamp a \<ge> c_timestamp b) (insert_by cmp_timestamp x ys)"
  by (induction ys) (auto simp: set_insert_by cmp_timestamp_def split: if_splits)

lemma sorted_foldl_insert:
  "sorted_wrt (\<lambda>a b. c_timestamp a \<ge> c_timestamp b) acc \<Longrightarrow>
   sorted_wrt (\<lambda>a b. c_timestamp a \<ge> c_timestamp b)
     (foldl (\<lambda>acc x. insert_by cmp_timestamp x acc) acc xs)"
  by (induction xs arbitrary: acc) (simp_all add: sorted_insert_by_timestamp)

lemma sorted_sort_by_timestamp:
  "sorted_wrt (\<lambda>a b. c_timestamp a \<ge> c_timestamp b) (sort_by cmp_timestamp xs)"
  by (simp add: sort_by_def sorted_foldl_insert)

lemma sorted_wrt_take_any: "sorted_wrt P xs \<Longrightarrow> sorted_wrt P (take n xs)"
  by (induction xs arbitrary: n) (auto simp: take_Cons' dest: in_set_takeD)

text \<open>
  C7. For every sessions directory and every pair of limits, the commands returned are
  at most \<open>maxCmds\<close>, and each has a time stamp at least as great, in the order of
  strings, as every one after it.
\<close>

theorem commands_capped_sorted:
  "length (extractCommands dir maxFiles maxCmds) \<le> maxCmds \<and>
   sorted_wrt (\<lambda>a b. c_timestamp a \<ge> c_timestamp b) (extractCommands dir maxFiles maxCmds)"
  by (simp add: extractCommands_def sorted_sort_by_timestamp sorted_wrt_take_any
      split: option.split)

text \<open>Two commands in file order come out latest first, and a cap of one keeps the
  latest.\<close>

lemma extractCommands_example:
  "map c_timestamp
     (extractCommands
        (one_file_dir [msg_event ''2024-01-01T00:00:01Z'' [call_t1],
                       msg_event ''2024-01-01T00:00:02Z'' [call_t1]]) 20 200) =
     [''2024-01-01T00:00:02Z'', ''2024-01-01T00:00:01Z''] \<and>
   map c_timestamp
     (extractCommands
        (one_file_dir [msg_event ''2024-01-01T00:00:01Z'' [call_t1],
                       msg_event ''2024-01-01T00:00:02Z'' [call_t1]]) 20 1) =
     [''2024-01-01T00:00:02Z'']"
  by (simp add: extractCommands_def list_files_def one_file_dir_def endsWith_def
      startsWith_def sort_by_def cmp_timestamp_def session_id_def cmd_step_def msg_event_def
      no_event_def no_message_def scan_block_def emit_cmds_def call_key_def call_entry_def
      nullish_def call_t1_def no_block_def Let_def)

text \<open>The two maps after the loop over the blocks of a message.\<close>

lemma map_get_map_set: "map_get (map_set k v m) k' = (if k' = k then Some v else map_get m k')"
  by (induction m) auto

lemma map_set_tabulate_distinct:
  "distinct ks \<Longrightarrow>
   map_set k v (map (\<lambda>x. (x, f x)) ks) =
     (if k \<in> set ks then map (\<lambda>x. (x, if x = k then v else f x)) ks
      else map (\<lambda>x. (x, f x)) ks @ [(k, v)])"
  by (induction ks) auto

lemma fst_scan:
  "fst (foldl (scan_block ts) maps bs) =
     foldl (\<lambda>calls b. if b_type b = Some ''toolCall''
                       then map_set (call_key b) (call_entry ts b) calls else calls)
       (fst maps) bs"
  by (induction bs arbitrary: maps) (simp_all add: scan_block_def Let_def)

lemma snd_scan:
  "snd (foldl (scan_block ts) maps bs) =
     foldl (\<lambda>results b. if b_type b = Some ''toolResult''
                         then map_set (call_key b) (preview_entry b) results else results)
       (snd maps) bs"
  by (induction bs arbitrary: maps) (simp_all add: scan_block_def Let_def)

lemma call_key_id: "call_key b = id_or_empty b"
  by (simp add: call_key_def nullish_def id_or_empty_def)

lemma keys_in_order_snoc:
  "keys_in_order (bs @ [b]) =
     (if b_type b = Some ''toolCall'' \<and> id_or_empty b \<notin> set (keys_in_order bs)
      then keys_in_order bs @ [id_or_empty b] else keys_in_order bs)"
  by (auto simp: keys_in_order_def)

lemma distinct_keys_in_order: "distinct (keys_in_order bs)"
  by (simp add: keys_in_order_def)

lemma calls_with_snoc:
  "calls_with k (bs @ [b]) =
     (if b_type b = Some ''toolCall'' \<and> id_or_empty b = k then calls_with k bs @ [b]
      else calls_with k bs)"
  by (simp add: calls_with_def)

lemma results_with_snoc:
  "results_with k (bs @ [b]) =
     (if b_type b = Some ''toolResult'' \<and> id_or_empty b = k then results_with k bs @ [b]
      else results_with k bs)"
  by (simp add: results_with_def)

lemma calls_fold:
  "foldl (\<lambda>calls b. if b_type b = Some ''toolCall''
                     then map_set (call_key b) (call_entry ts b) calls else calls) [] bs =
     map (\<lambda>k. (k, call_entry ts (last (calls_with k bs)))) (keys_in_order bs)"
proof (induction bs rule: rev_induct)
  case Nil
  show ?case by (simp add: keys_in_order_def)
next
  case (snoc b bs)
  show ?case
    by (simp add: snoc.IH map_set_tabulate_distinct distinct_keys_in_order
        keys_in_order_snoc calls_with_snoc call_key_id)
qed

lemma results_fold:
  "map_get
     (foldl (\<lambda>results b. if b_type b = Some ''toolResult''
                          then map_set (call_key b) (preview_entry b) results else results)
        [] bs) k =
     (case results_with k bs of
        [] \<Rightarrow> None
      | _ # _ \<Rightarrow>
          Some (truncate_str (result_preview (b_content (last (results_with k bs)))) 300))"
proof (induction bs rule: rev_induct)
  case Nil
  show ?case by (simp add: results_with_def)
next
  case (snoc b bs)
  then show ?case
    by (simp add: map_get_map_set results_with_snoc call_key_id preview_entry_def
        split: list.split)
qed

lemma emit_scan:
  "emit_cmds sid file (foldl (scan_block ts) ([], []) bs) =
     map (cmd_for_key sid file ts bs) (keys_in_order bs)"
  by (simp add: emit_cmds_def fst_scan snd_scan calls_fold results_fold cmd_for_key_def
      call_entry_def nullish_def Let_def comp_def split: list.split)

lemma cmd_step_message:
  assumes "e_type e = Some ''message''" and "e_message e = Some msg"
    and "m_content msg = CArray bs"
  shows "cmd_step sid file cmds e =
           cmds @ map (cmd_for_key sid file (nullish (e_timestamp e) []) bs) (keys_in_order bs)"
  using assms by (simp add: cmd_step_def emit_scan)

text \<open>
  C10. For a message with an array of blocks, the entries pushed are one for each
  identifier of a \<^verbatim>\<open>toolCall\<close> block, in the order in which the identifiers first
  occur, a missing \<^verbatim>\<open>toolCallId\<close> counting as the empty string; the entry of an
  identifier comes from the last \<^verbatim>\<open>toolCall\<close> block with it, with the preview of the
  last \<^verbatim>\<open>toolResult\<close> block with it. So two \<^verbatim>\<open>toolCall\<close> blocks with the same
  \<^verbatim>\<open>toolCallId\<close>, or both without one, give one entry, from the later block, and a
  \<^verbatim>\<open>toolResult\<close> block without a \<^verbatim>\<open>toolCallId\<close> is matched to a \<^verbatim>\<open>toolCall\<close> block
  without one; two \<^verbatim>\<open>toolCall\<close> blocks with different identifiers give two entries, in
  the order of the blocks, and a \<^verbatim>\<open>toolResult\<close> block with another identifier than the
  \<^verbatim>\<open>toolCall\<close> block is not matched to it.
\<close>

theorem calls_keyed_by_id:
  assumes "e_type e = Some ''message''" and "e_message e = Some msg"
  shows "(m_content msg = CArray bs \<longrightarrow>
            cmd_step sid fname cmds e =
              cmds @
              map (cmd_for_key sid fname (nullish (e_timestamp e) []) bs) (keys_in_order bs)) \<and>
         (m_content msg = CArray [ca, cb] \<and> b_type ca = Some ''toolCall'' \<and>
          b_type cb = Some ''toolCall'' \<and> b_toolCallId ca = b_toolCallId cb \<longrightarrow>
            cmd_step sid fname [] e =
              [\<lparr>c_sessionId = sid, c_sessionFile = fname,
                c_timestamp = nullish (e_timestamp e) [], c_toolName = b_toolName cb,
                c_args = truncate_str (a_json (nullish (b_args cb) empty_args)) 500,
                c_resultPreview = []\<rparr>]) \<and>
         (m_content msg = CArray [ca, cb] \<and> b_type ca = Some ''toolCall'' \<and>
          b_type cb = Some ''toolResult'' \<and> b_toolCallId ca = None \<and>
          b_toolCallId cb = None \<longrightarrow>
            cmd_step sid fname [] e =
              [\<lparr>c_sessionId = sid, c_sessionFile = fname,
                c_timestamp = nullish (e_timestamp e) [], c_toolName = b_toolName ca,
                c_args = truncate_str (a_json (nullish (b_args ca) empty_args)) 500,
                c_resultPreview = truncate_str (result_preview (b_content cb)) 300\<rparr>]) \<and>
         (m_content msg = CArray [ca, cb] \<and> b_type ca = Some ''toolCall'' \<and>
          b_type cb = Some ''toolCall'' \<and> b_toolCallId ca = Some i \<and>
          b_toolCallId cb = Some j \<and> i \<noteq> j \<longrightarrow>
            cmd_step sid fname [] e =
              [\<lparr>c_sessionId = sid, c_sessionFile = fname,
                c_timestamp = nullish (e_timestamp e) [], c_toolName = b_toolName ca,
                c_args = truncate_str (a_json (nullish (b_args ca) empty_args)) 500,
                c_resultPreview = []\<rparr>,
               \<lparr>c_sessionId = sid, c_sessionFile = fname,
                c_timestamp = nullish (e_timestamp e) [], c_toolName = b_toolName cb,
                c_args = truncate_str (a_json (nullish (b_args cb) empty_args)) 500,
                c_resultPreview = []\<rparr>]) \<and>
         (m_content msg = CArray [ca, cb] \<and> b_type ca = Some ''toolCall'' \<and>
          b_type cb = Some ''toolResult'' \<and> b_toolCallId ca = Some i \<and>
          b_toolCallId cb = Some j \<and> i \<noteq> j \<longrightarrow>
            cmd_step sid fname [] e =
              [\<lparr>c_sessionId = sid, c_sessionFile = fname,
                c_timestamp = nullish (e_timestamp e) [], c_toolName = b_toolName ca,
                c_args = truncate_str (a_json (nullish (b_args ca) empty_args)) 500,
                c_resultPreview = []\<rparr>])"
proof (intro conjI impI)
  assume "m_content msg = CArray bs"
  with assms show "cmd_step sid fname cmds e =
      cmds @ map (cmd_for_key sid fname (nullish (e_timestamp e) []) bs) (keys_in_order bs)"
    by (rule cmd_step_message)
next
  assume a: "m_content msg = CArray [ca, cb] \<and> b_type ca = Some ''toolCall'' \<and>
          b_type cb = Some ''toolCall'' \<and> b_toolCallId ca = b_toolCallId cb"
  then have "m_content msg = CArray [ca, cb]" by simp
  from cmd_step_message[OF assms this, where cmds = "[]"] a
  show "cmd_step sid fname [] e =
              [\<lparr>c_sessionId = sid, c_sessionFile = fname,
                c_timestamp = nullish (e_timestamp e) [], c_toolName = b_toolName cb,
                c_args = truncate_str (a_json (nullish (b_args cb) empty_args)) 500,
                c_resultPreview = []\<rparr>]"
    by (simp add: keys_in_order_def cmd_for_key_def calls_with_def results_with_def
        id_or_empty_def Let_def)
next
  assume a: "m_content msg = CArray [ca, cb] \<and> b_type ca = Some ''toolCall'' \<and>
          b_type cb = Some ''toolResult'' \<and> b_toolCallId ca = None \<and>
          b_toolCallId cb = None"
  then have "m_content msg = CArray [ca, cb]" by simp
  from cmd_step_message[OF assms this, where cmds = "[]"] a
  show "cmd_step sid fname [] e =
              [\<lparr>c_sessionId = sid, c_sessionFile = fname,
                c_timestamp = nullish (e_timestamp e) [], c_toolName = b_toolName ca,
                c_args = truncate_str (a_json (nullish (b_args ca) empty_args)) 500,
                c_resultPreview = truncate_str (result_preview (b_content cb)) 300\<rparr>]"
    by (simp add: keys_in_order_def cmd_for_key_def calls_with_def results_with_def
        id_or_empty_def Let_def)
next
  assume a: "m_content msg = CArray [ca, cb] \<and> b_type ca = Some ''toolCall'' \<and>
          b_type cb = Some ''toolCall'' \<and> b_toolCallId ca = Some i \<and>
          b_toolCallId cb = Some j \<and> i \<noteq> j"
  then have "m_content msg = CArray [ca, cb]" by simp
  from cmd_step_message[OF assms this, where cmds = "[]"] a
  show "cmd_step sid fname [] e =
              [\<lparr>c_sessionId = sid, c_sessionFile = fname,
                c_timestamp = nullish (e_timestamp e) [], c_toolName = b_toolName ca,
                c_args = truncate_str (a_json (nullish (b_args ca) empty_args)) 500,
                c_resultPreview = []\<rparr>,
               \<lparr>c_sessionId = sid, c_sessionFile = fname,
                c_timestamp = nullish (e_timestamp e) [], c_toolName = b_toolName cb,
                c_args = truncate_str (a_json (nullish (b_args cb) empty_args)) 500,
                c_resultPreview = []\<rparr>]"
    by (auto simp: keys_in_order_def cmd_for_key_def calls_with_def results_with_def
        id_or_empty_def Let_def)
next
  assume a: "m_content msg = CArray [ca, cb] \<and> b_type ca = Some ''toolCall'' \<and>
          b_type cb = Some ''toolResult'' \<and> b_toolCallId ca = Some i \<and>
          b_toolCallId cb = Some j \<and> i \<noteq> j"
  then have "m_content msg = CArray [ca, cb]" by simp
  from cmd_step_message[OF assms this, where cmds = "[]"] a
  show "cmd_step sid fname [] e =
              [\<lparr>c_sessionId = sid, c_sessionFile = fname,
                c_timestamp = nullish (e_timestamp e) [], c_toolName = b_toolName ca,
                c_args = truncate_str (a_json (nullish (b_args ca) empty_args)) 500,
                c_resultPreview = []\<rparr>]"
    by (auto simp: keys_in_order_def cmd_for_key_def calls_with_def results_with_def
        id_or_empty_def Let_def)
qed

theorem calls_keyed_by_id_witness:
  "cmd_step ''s1'' ''s1.jsonl'' []
     (msg_event ''2024-01-01T00:00:01Z'' [call_t1, call_t1\<lparr>b_toolName := Some ''read''\<rparr>]) =
     [\<lparr>c_sessionId = ''s1'', c_sessionFile = ''s1.jsonl'',
       c_timestamp = ''2024-01-01T00:00:01Z'', c_toolName = Some ''read'', c_args = ''{}'',
       c_resultPreview = []\<rparr>] \<and>
   cmd_step ''s1'' ''s1.jsonl'' []
     (msg_event ''2024-01-01T00:00:01Z''
        [call_t1\<lparr>b_toolCallId := None\<rparr>, result_t1\<lparr>b_toolCallId := None\<rparr>]) =
     [\<lparr>c_sessionId = ''s1'', c_sessionFile = ''s1.jsonl'',
       c_timestamp = ''2024-01-01T00:00:01Z'', c_toolName = Some ''exec'', c_args = ''{}'',
       c_resultPreview = ''done''\<rparr>] \<and>
   cmd_step ''s1'' ''s1.jsonl'' []
     (msg_event ''2024-01-01T00:00:01Z''
        [call_t1, call_t1\<lparr>b_toolCallId := Some ''t2'', b_toolName := Some ''read''\<rparr>]) =
     [\<lparr>c_sessionId = ''s1'', c_sessionFile = ''s1.jsonl'',
       c_timestamp = ''2024-01-01T00:00:01Z'', c_toolName = Some ''exec'', c_args = ''{}'',
       c_resultPreview = []\<rparr>,
      \<lparr>c_sessionId = ''s1'', c_sessionFile = ''s1.jsonl'',
       c_timestamp = ''2024-01-01T00:00:01Z'', c_toolName = Some ''read'', c_args = ''{}'',
       c_resultPreview = []\<rparr>] \<and>
   cmd_step ''s1'' ''s1.jsonl'' []
     (msg_event ''2024-01-01T00:00:01Z'' [call_t1, result_t1\<lparr>b_toolCallId := Some ''t2''\<rparr>]) =
     [\<lparr>c_sessionId = ''s1'', c_sessionFile = ''s1.jsonl'',
       c_timestamp = ''2024-01-01T00:00:01Z'', c_toolName = Some ''exec'', c_args = ''{}'',
       c_resultPreview = []\<rparr>]"
proof -
  have ty: "e_type (msg_event ''2024-01-01T00:00:01Z'' bs) = Some ''message''"
    and ms: "e_message (msg_event ''2024-01-01T00:00:01Z'' bs) =
               Some (no_message\<lparr>m_role := Some ''assistant'', m_content := CArray bs\<rparr>)"
    and ts: "e_timestamp (msg_event ''2024-01-01T00:00:01Z'' bs) = Some ''2024-01-01T00:00:01Z''"
    for bs by (simp_all add: msg_event_def no_event_def)
  from calls_keyed_by_id [OF ty ms, where ca = call_t1
      and cb = "call_t1\<lparr>b_toolName := Some ''read''\<rparr>" and sid = "''s1''"
      and fname = "''s1.jsonl''" and bs = "[]" and cmds = "[]" and i = "[]" and j = "[]"]
  have "cmd_step ''s1'' ''s1.jsonl'' []
     (msg_event ''2024-01-01T00:00:01Z'' [call_t1, call_t1\<lparr>b_toolName := Some ''read''\<rparr>]) =
     [\<lparr>c_sessionId = ''s1'', c_sessionFile = ''s1.jsonl'',
       c_timestamp = ''2024-01-01T00:00:01Z'', c_toolName = Some ''read'', c_args = ''{}'',
       c_resultPreview = []\<rparr>]"
    by (simp add: ts no_message_def call_t1_def no_block_def nullish_def empty_args_def
        truncate_str_def)
  moreover
  from calls_keyed_by_id [OF ty ms, where ca = "call_t1\<lparr>b_toolCallId := None\<rparr>"
      and cb = "result_t1\<lparr>b_toolCallId := None\<rparr>" and sid = "''s1''"
      and fname = "''s1.jsonl''" and bs = "[]" and cmds = "[]" and i = "[]" and j = "[]"]
  have "cmd_step ''s1'' ''s1.jsonl'' []
     (msg_event ''2024-01-01T00:00:01Z''
        [call_t1\<lparr>b_toolCallId := None\<rparr>, result_t1\<lparr>b_toolCallId := None\<rparr>]) =
     [\<lparr>c_sessionId = ''s1'', c_sessionFile = ''s1.jsonl'',
       c_timestamp = ''2024-01-01T00:00:01Z'', c_toolName = Some ''exec'', c_args = ''{}'',
       c_resultPreview = ''done''\<rparr>]"
    by (simp add: ts no_message_def call_t1_def result_t1_def no_block_def nullish_def
        empty_args_def truncate_str_def result_preview_def)
  moreover
  from calls_keyed_by_id [OF ty ms, where ca = call_t1
      and cb = "call_t1\<lparr>b_toolCallId := Some ''t2'', b_toolName := Some ''read''\<rparr>"
      and sid = "''s1''" and fname = "''s1.jsonl''" and bs = "[]" and cmds = "[]"
      and i = "''t1''" and j = "''t2''"]
  have "cmd_step ''s1'' ''s1.jsonl'' []
     (msg_event ''2024-01-01T00:00:01Z''
        [call_t1, call_t1\<lparr>b_toolCallId := Some ''t2'', b_toolName := Some ''read''\<rparr>]) =
     [\<lparr>c_sessionId = ''s1'', c_sessionFile = ''s1.jsonl'',
       c_timestamp = ''2024-01-01T00:00:01Z'', c_toolName = Some ''exec'', c_args = ''{}'',
       c_resultPreview = []\<rparr>,
      \<lparr>c_sessionId = ''s1'', c_sessionFile = ''s1.jsonl'',
       c_timestamp = ''2024-01-01T00:00:01Z'', c_toolName = Some ''read'', c_args = ''{}'',
       c_resultPreview = []\<rparr>]"
    by (simp add: ts no_message_def call_t1_def no_block_def nullish_def empty_args_def
        truncate_str_def)
  moreover
  from calls_keyed_by_id [OF ty ms, where ca = call_t1
      and cb = "result_t1\<lparr>b_toolCallId := Some ''t2''\<rparr>"
      and sid = "''s1''" and fname = "''s1.jsonl''" and bs = "[]" and cmds = "[]"
      and i = "''t1''" and j = "''t2''"]
  have "cmd_step ''s1'' ''s1.jsonl'' []
     (msg_event ''2024-01-01T00:00:01Z'' [call_t1, result_t1\<lparr>b_toolCallId := Some ''t2''\<rparr>]) =
     [\<lparr>c_sessionId = ''s1'', c_sessionFile = ''s1.jsonl'',
       c_timestamp = ''2024-01-01T00:00:01Z'', c_toolName = Some ''exec'', c_args = ''{}'',
       c_resultPreview = []\<rparr>]"
    by (simp add: ts no_message_def call_t1_def result_t1_def no_block_def nullish_def
        empty_args_def truncate_str_def)
  ultimately show ?thesis by simp
qed

text \<open>The sessions directory with one file.\<close>

lemma list_files_one:
  "0 < maxFiles \<Longrightarrow> list_files (one_file_dir entries) maxFiles = Some [''s1.jsonl'']"
  by (simp add: list_files_def one_file_dir_def endsWith_def startsWith_def sort_by_def
      take_Cons')

lemma parseJsonl_one: "parseJsonl (one_file_dir entries) ''s1.jsonl'' = entries"
  by (simp add: one_file_dir_def)

lemma extract_one_file:
  assumes "0 < maxFiles"
  shows "extractCommands (one_file_dir entries) maxFiles maxCmds =
     take maxCmds
       (sort_by cmp_timestamp
          (foldl (cmd_step (session_id ''s1.jsonl'' entries) ''s1.jsonl'') [] entries))"
  by (simp add: extractCommands_def list_files_one[OF assms] parseJsonl_one Let_def
      del: foldl.simps)

text \<open>
  C2, amended. A \<^verbatim>\<open>toolCall\<close> block and a \<^verbatim>\<open>toolResult\<close> block with the identifier
  \<^verbatim>\<open>t1\<close> and a result text that is not empty, in the same message, give exactly one
  command, whose preview is the truncated result text and is not empty. The same two
  blocks in two messages give exactly one command, that of the \<^verbatim>\<open>toolCall\<close> block, with
  an empty preview: the message with only the \<^verbatim>\<open>toolResult\<close> block gives none.
\<close>

theorem same_message_pairing:
  assumes "b_type call = Some ''toolCall''" and "b_toolCallId call = Some ''t1''"
    and "b_type res = Some ''toolResult''" and "b_toolCallId res = Some ''t1''"
    and "result_preview (b_content res) \<noteq> []"
    and "0 < maxFiles" and "0 < maxCmds"
  shows "extractCommands (one_file_dir [msg_event ts [call, res]]) maxFiles maxCmds =
           [\<lparr>c_sessionId = ''s1'', c_sessionFile = ''s1.jsonl'', c_timestamp = ts,
             c_toolName = b_toolName call,
             c_args = truncate_str (a_json (nullish (b_args call) empty_args)) 500,
             c_resultPreview = truncate_str (result_preview (b_content res)) 300\<rparr>] \<and>
         truncate_str (result_preview (b_content res)) 300 \<noteq> [] \<and>
         extractCommands (one_file_dir [msg_event ts [call], msg_event ts' [res]])
             maxFiles maxCmds =
           [\<lparr>c_sessionId = ''s1'', c_sessionFile = ''s1.jsonl'', c_timestamp = ts,
             c_toolName = b_toolName call,
             c_args = truncate_str (a_json (nullish (b_args call) empty_args)) 500,
             c_resultPreview = []\<rparr>]"
proof (intro conjI)
  show "extractCommands (one_file_dir [msg_event ts [call, res]]) maxFiles maxCmds =
           [\<lparr>c_sessionId = ''s1'', c_sessionFile = ''s1.jsonl'', c_timestamp = ts,
             c_toolName = b_toolName call,
             c_args = truncate_str (a_json (nullish (b_args call) empty_args)) 500,
             c_resultPreview = truncate_str (result_preview (b_content res)) 300\<rparr>]"
    using assms
    by (simp add: extract_one_file session_id_def startsWith_def cmd_step_def msg_event_def
        no_event_def no_message_def scan_block_def emit_cmds_def call_key_def call_entry_def
        preview_entry_def nullish_def sort_by_def take_Cons' Let_def)
  show "truncate_str (result_preview (b_content res)) 300 \<noteq> []"
    using assms(5) by (auto simp: truncate_str_def)
  show "extractCommands (one_file_dir [msg_event ts [call], msg_event ts' [res]])
             maxFiles maxCmds =
           [\<lparr>c_sessionId = ''s1'', c_sessionFile = ''s1.jsonl'', c_timestamp = ts,
             c_toolName = b_toolName call,
             c_args = truncate_str (a_json (nullish (b_args call) empty_args)) 500,
             c_resultPreview = []\<rparr>]"
    using assms
    by (simp add: extract_one_file session_id_def startsWith_def cmd_step_def msg_event_def
        no_event_def no_message_def scan_block_def emit_cmds_def call_key_def call_entry_def
        preview_entry_def nullish_def sort_by_def take_Cons' Let_def)
qed

theorem same_message_pairing_witness:
  "extractCommands (one_file_dir [msg_event ''2024-01-01T00:00:01Z'' [call_t1, result_t1]])
     20 200 =
     [\<lparr>c_sessionId = ''s1'', c_sessionFile = ''s1.jsonl'',
       c_timestamp = ''2024-01-01T00:00:01Z'', c_toolName = Some ''exec'', c_args = ''{}'',
       c_resultPreview = ''done''\<rparr>] \<and>
   extractCommands
     (one_file_dir [msg_event ''2024-01-01T00:00:01Z'' [call_t1],
                    msg_event ''2024-01-01T00:00:02Z'' [result_t1]]) 20 200 =
     [\<lparr>c_sessionId = ''s1'', c_sessionFile = ''s1.jsonl'',
       c_timestamp = ''2024-01-01T00:00:01Z'', c_toolName = Some ''exec'', c_args = ''{}'',
       c_resultPreview = []\<rparr>]"
proof -
  have h: "b_type call_t1 = Some ''toolCall''" "b_toolCallId call_t1 = Some ''t1''"
    "b_type result_t1 = Some ''toolResult''" "b_toolCallId result_t1 = Some ''t1''"
    "result_preview (b_content result_t1) \<noteq> []" "(0::nat) < 20" "(0::nat) < 200"
    by (simp_all add: call_t1_def result_t1_def no_block_def result_preview_def)
  from same_message_pairing [OF h, where ts = "''2024-01-01T00:00:01Z''"
      and ts' = "''2024-01-01T00:00:02Z''"]
  show ?thesis
    by (simp add: call_t1_def result_t1_def no_block_def result_preview_def nullish_def
        empty_args_def truncate_str_def)
qed

text \<open>
  The claim as written fails on the pair in two messages: one command is returned, not
  two.
\<close>

theorem split_message_counterexample:
  "length
     (extractCommands
        (one_file_dir [msg_event ''2024-01-01T00:00:01Z'' [call_t1],
                       msg_event ''2024-01-01T00:00:02Z'' [result_t1]]) 20 200) = 1"
  by (simp add: extractCommands_def list_files_def one_file_dir_def endsWith_def
      startsWith_def sort_by_def session_id_def cmd_step_def msg_event_def no_event_def
      no_message_def scan_block_def emit_cmds_def call_key_def call_entry_def
      preview_entry_def nullish_def call_t1_def result_t1_def no_block_def Let_def)

subsection \<open>Memory files\<close>

text \<open>Splitting and joining.\<close>

lemma split_sep_not_Nil [simp]: "split_sep c s \<noteq> []"
  by (induction s) (auto split: list.split)

lemma split_sep_no_sep: "w \<in> set (split_sep c s) \<Longrightarrow> c \<notin> set w"
  by (induction s arbitrary: w) (auto split: list.splits if_splits)

lemma split_sep_plain: "c \<notin> set w \<Longrightarrow> split_sep c w = [w]"
  by (induction w) auto

lemma split_sep_append: "c \<notin> set w \<Longrightarrow> split_sep c (w @ c # t) = w # split_sep c t"
  by (induction w) auto

lemma split_join:
  "ws \<noteq> [] \<Longrightarrow> \<forall>w\<in>set ws. c \<notin> set w \<Longrightarrow> split_sep c (join_sep c ws) = ws"
  by (induction c ws rule: join_sep.induct) (simp_all add: split_sep_plain split_sep_append)

lemma split_join_trailing:
  "ws \<noteq> [] \<Longrightarrow> \<forall>w\<in>set ws. c \<notin> set w \<Longrightarrow>
   split_sep c (join_sep c ws @ [c]) = ws @ [[]]"
  by (induction c ws rule: join_sep.induct) (simp_all add: split_sep_append)

text \<open>A property of the result so far that each of the three moves of
  \<open>normalizeSegs\<close> keeps holds of what it returns.\<close>

lemma normalizeSegs_invariant:
  assumes "P res"
    and push: "\<And>r s. P r \<Longrightarrow> s \<in> set ss \<Longrightarrow> s \<noteq> [] \<Longrightarrow> s \<noteq> ''.'' \<Longrightarrow> s \<noteq> ''..'' \<Longrightarrow>
                 P (r @ [s])"
    and pop: "\<And>r. P r \<Longrightarrow> r \<noteq> [] \<Longrightarrow> last r \<noteq> ''..'' \<Longrightarrow> P (butlast r)"
    and up: "\<And>r. P r \<Longrightarrow> r = [] \<or> last r = ''..'' \<Longrightarrow> P (r @ [''..''])"
  shows "P (normalizeSegs a res ss)"
  using assms(1,2)
proof (induction ss arbitrary: res)
  case Nil
  then show ?case by simp
next
  case (Cons s ss)
  have step: "P (normalizeSegs a r ss)" if "P r" for r
    using that Cons.prems(2) by (intro Cons.IH) auto
  consider "s = [] \<or> s = ''.''"
    | "s = ''..''" "res \<noteq> []" "last res \<noteq> ''..''"
    | "s = ''..''" "res = [] \<or> last res = ''..''" "a"
    | "s = ''..''" "res = [] \<or> last res = ''..''" "\<not> a"
    | "s \<noteq> []" "s \<noteq> ''.''" "s \<noteq> ''..''"
    by blast
  then show ?case
  proof cases
    case 1
    then show ?thesis using step[OF Cons.prems(1)] by auto
  next
    case 2
    then show ?thesis using step[OF pop[OF Cons.prems(1)]] by simp
  next
    case 3
    then show ?thesis using step[OF up[OF Cons.prems(1)]] by auto
  next
    case 4
    then show ?thesis using step[OF Cons.prems(1)] by auto
  next
    case 5
    have "P (res @ [s])" using Cons.prems 5 by simp
    then show ?thesis using step 5 by simp
  qed
qed

lemma normalizeSegs_no_sep:
  assumes "\<forall>w\<in>set ss. CHR ''/'' \<notin> set w"
  shows "\<forall>w\<in>set (normalizeSegs a [] ss). CHR ''/'' \<notin> set w"
  by (rule normalizeSegs_invariant) (use assms in \<open>auto dest: in_set_butlastD\<close>)

text \<open>In the result, \<^verbatim>\<open>".."\<close> stands only before every other segment.\<close>

lemma dots_first_snoc:
  "''..'' \<notin> set (dropWhile (\<lambda>s. s = ''..'') res) \<Longrightarrow> s \<noteq> ''..'' \<Longrightarrow>
   ''..'' \<notin> set (dropWhile (\<lambda>s. s = ''..'') (res @ [s]))"
  by (auto simp: dropWhile_append)

lemma dropWhile_all: "\<forall>x\<in>set xs. P x \<Longrightarrow> dropWhile P xs = []"
  by simp

lemma dots_first_butlast:
  assumes "''..'' \<notin> set (dropWhile (\<lambda>s. s = ''..'') res)"
  shows "''..'' \<notin> set (dropWhile (\<lambda>s. s = ''..'') (butlast res))"
proof (cases res rule: rev_cases)
  case Nil
  then show ?thesis by simp
next
  case (snoc ys y)
  show ?thesis
  proof (cases "\<forall>x\<in>set ys. x = ''..''")
    case True
    then show ?thesis using snoc by (simp add: dropWhile_all)
  next
    case False
    then have "dropWhile (\<lambda>s. s = ''..'') res = dropWhile (\<lambda>s. s = ''..'') ys @ [y]"
      using snoc by (simp add: dropWhile_append)
    then show ?thesis using assms snoc by simp
  qed
qed

lemma dots_first_dots:
  assumes "''..'' \<notin> set (dropWhile (\<lambda>s. s = ''..'') res)"
    and "res = [] \<or> last res = ''..''"
  shows "''..'' \<notin> set (dropWhile (\<lambda>s. s = ''..'') (res @ [''..'']))"
proof -
  have "dropWhile (\<lambda>s. s = ''..'') res = []"
  proof (rule ccontr)
    assume ne: "dropWhile (\<lambda>s. s = ''..'') res \<noteq> []"
    then have "res \<noteq> []" by auto
    with assms(2) have "last res = ''..''" by simp
    moreover have "last (dropWhile (\<lambda>s. s = ''..'') res) = last res"
      using ne by (metis last_appendR takeWhile_dropWhile_id)
    ultimately have "''..'' \<in> set (dropWhile (\<lambda>s. s = ''..'') res)"
      using ne by (metis last_in_set)
    with assms(1) show False by simp
  qed
  then have "\<forall>x\<in>set res. x = ''..''" by (simp add: dropWhile_eq_Nil_conv)
  then show ?thesis by (simp add: dropWhile_append)
qed

lemma normalizeSegs_dots_first:
  "''..'' \<notin> set (dropWhile (\<lambda>s. s = ''..'') (normalizeSegs a [] ss))"
  by (rule normalizeSegs_invariant)
     (simp_all add: dots_first_snoc dots_first_butlast dots_first_dots)

lemma no_dots_if_head:
  "''..'' \<notin> set (dropWhile (\<lambda>s. s = ''..'') xs) \<Longrightarrow> xs \<noteq> [] \<Longrightarrow> hd xs \<noteq> ''..'' \<Longrightarrow>
   ''..'' \<notin> set xs"
  by (cases xs) auto

lemma isAbsolute_normalize: "isAbsolute p \<Longrightarrow> isAbsolute (path_normalize p)"
  by (cases p) (auto simp: isAbsolute_def path_normalize_def Let_def)

text \<open>The segments of a normalized relative path.\<close>

lemma path_normalize_relative_cases:
  assumes "\<not> isAbsolute p"
  obtains "path_normalize p = ''.''" | "path_normalize p = ''./''"
  | "normalizeSegs True [] (split_sep CHR ''/'' p) \<noteq> []"
    "split_sep CHR ''/'' (path_normalize p) = normalizeSegs True [] (split_sep CHR ''/'' p) \<or>
     split_sep CHR ''/'' (path_normalize p) = normalizeSegs True [] (split_sep CHR ''/'' p) @ [[]]"
proof (cases "p = [] \<or> normalizeString p True = []")
  case True
  then have "path_normalize p = ''.'' \<or> path_normalize p = ''./''"
    using assms by (auto simp: path_normalize_def Let_def)
  then show ?thesis using that(1,2) by blast
next
  case False
  let ?ns = "normalizeSegs True [] (split_sep CHR ''/'' p)"
  have q: "normalizeString p True = join_sep CHR ''/'' ?ns" by (simp add: normalizeString_def)
  have ne: "?ns \<noteq> []" using False q by auto
  have nosep: "\<forall>w\<in>set ?ns. CHR ''/'' \<notin> set w"
    by (rule normalizeSegs_no_sep) (auto dest: split_sep_no_sep)
  have "path_normalize p = join_sep CHR ''/'' ?ns \<or> path_normalize p = join_sep CHR ''/'' ?ns @ ''/''"
    using False assms by (auto simp: path_normalize_def Let_def q)
  then have "split_sep CHR ''/'' (path_normalize p) = ?ns \<or>
             split_sep CHR ''/'' (path_normalize p) = ?ns @ [[]]"
    using split_join[OF ne nosep] split_join_trailing[OF ne nosep] by auto
  then show ?thesis using that(3) ne by blast
qed

text \<open>
  C1, amended. The paths \<^verbatim>\<open>"../secret"\<close>, \<^verbatim>\<open>"/etc/passwd"\<close> and
  \<^verbatim>\<open>"unknownDir/file.txt"\<close> give the not-found signal. Content is returned only for a
  relative path whose normalized form is relative, has one of the recognized directory
  names as its first segment and has no \<^verbatim>\<open>".."\<close> segment, and the content is that of
  the normalized path; every other path gives the not-found signal.
\<close>

theorem memory_file_guard:
  "getMemoryFile readFile ''../secret'' = None \<and>
   getMemoryFile readFile ''/etc/passwd'' = None \<and>
   getMemoryFile readFile ''unknownDir/file.txt'' = None \<and>
   (getMemoryFile readFile fp = Some content \<longrightarrow>
      \<not> isAbsolute fp \<and> \<not> isAbsolute (path_normalize fp) \<and>
      hd (split_sep CHR ''/'' (path_normalize fp)) \<in> set MEMORY_DIRS \<and>
      ''..'' \<notin> set (split_sep CHR ''/'' (path_normalize fp)) \<and>
      readFile (path_normalize fp) = Some content)"
proof (intro conjI impI)
  show "getMemoryFile readFile ''../secret'' = None"
    by (simp add: getMemoryFile_def path_normalize_def normalizeString_def isAbsolute_def
        startsWith_def Let_def)
  show "getMemoryFile readFile ''/etc/passwd'' = None"
    by (simp add: getMemoryFile_def path_normalize_def normalizeString_def isAbsolute_def
        startsWith_def Let_def)
  show "getMemoryFile readFile ''unknownDir/file.txt'' = None"
    by (simp add: getMemoryFile_def path_normalize_def normalizeString_def isAbsolute_def
        startsWith_def MEMORY_DIRS_def Let_def)
next
  assume some: "getMemoryFile readFile fp = Some content"
  let ?segs = "split_sep CHR ''/'' (path_normalize fp)"
  from some have na: "\<not> isAbsolute (path_normalize fp)"
    and hd: "hd ?segs \<in> set MEMORY_DIRS"
    and rd: "readFile (path_normalize fp) = Some content"
    by (auto simp: getMemoryFile_def Let_def split: if_splits list.splits)
  from na show rel: "\<not> isAbsolute fp" using isAbsolute_normalize by blast
  from na show "\<not> isAbsolute (path_normalize fp)" .
  from hd show "hd ?segs \<in> set MEMORY_DIRS" .
  from rd show "readFile (path_normalize fp) = Some content" .
  have hd_dots: "hd ?segs \<noteq> ''..''" "hd ?segs \<noteq> ''.''"
    using hd by (auto simp: MEMORY_DIRS_def)
  from rel show "''..'' \<notin> set ?segs"
  proof (cases rule: path_normalize_relative_cases)
    case 1
    then show ?thesis using hd_dots by simp
  next
    case 2
    then show ?thesis using hd_dots by simp
  next
    case 3
    let ?ns = "normalizeSegs True [] (split_sep CHR ''/'' fp)"
    have "hd ?ns = hd ?segs" using 3 by auto
    then have "''..'' \<notin> set ?ns"
      using no_dots_if_head[OF normalizeSegs_dots_first 3(1)] hd_dots by simp
    then show ?thesis using 3(2) by auto
  qed
qed

theorem memory_file_guard_witness:
  "getMemoryFile (\<lambda>p. if p = ''guide/intro.md'' then Some ''# Intro'' else None)
     ''guide/intro.md'' = Some ''# Intro'' \<and>
   path_normalize ''guide/intro.md'' = ''guide/intro.md'' \<and>
   hd (split_sep CHR ''/'' (path_normalize ''guide/intro.md'')) \<in> set MEMORY_DIRS \<and>
   ''..'' \<notin> set (split_sep CHR ''/'' (path_normalize ''guide/intro.md''))"
proof -
  have g: "getMemoryFile (\<lambda>p. if p = ''guide/intro.md'' then Some ''# Intro'' else None)
             ''guide/intro.md'' = Some ''# Intro''"
    by (simp add: getMemoryFile_def path_normalize_def normalizeString_def isAbsolute_def
        startsWith_def MEMORY_DIRS_def Let_def)
  have n: "path_normalize ''guide/intro.md'' = ''guide/intro.md''"
    by (simp add: path_normalize_def normalizeString_def isAbsolute_def Let_def)
  from memory_file_guard
    [where readFile = "\<lambda>p. if p = ''guide/intro.md'' then Some ''# Intro'' else None"
       and fp = "''guide/intro.md''" and content = "''# Intro''"] g n
  show ?thesis by simp
qed

text \<open>
  The claim as written fails on a path with a \<^verbatim>\<open>".."\<close> segment that normalization
  resolves inside the memory root: the content of the normalized path is returned.
\<close>

theorem memory_file_counterexample:
  "getMemoryFile (\<lambda>p. if p = ''diary/note.md'' then Some ''text'' else None)
     ''bugs/../diary/note.md'' = Some ''text'' \<and>
   ''..'' \<in> set (split_sep CHR ''/'' ''bugs/../diary/note.md'')"
  by (simp add: getMemoryFile_def path_normalize_def normalizeString_def isAbsolute_def
      startsWith_def MEMORY_DIRS_def Let_def)

end
